theory Spec2Isabelle
  imports Complex_Main "HOL-Library.Multiset" "HOL-Library.Sublist"
begin

section \<open>JavaScript values used by the search module\<close>

text \<open>
  The module \<^verbatim>\<open>src/search.ts\<close> works on plain JavaScript values. Numbers that the
  module handles are ids, counts and millisecond timestamps, so they are modelled as
  \<^typ>\<open>int\<close>; \<^verbatim>\<open>NaN\<close> is \<open>None\<close> of \<^typ>\<open>int option\<close>. \<^verbatim>\<open>undefined\<close> and
  \<^verbatim>\<open>null\<close> of an optional field are \<open>None\<close>.
\<close>

datatype error = UnknownSearchFilter | TypeError

text \<open>An id as it travels through the id arrays: a number, or \<^verbatim>\<open>null\<close>/\<^verbatim>\<open>undefined\<close>.\<close>

type_synonym jsid = "int option"

text \<open>\<^verbatim>\<open>Boolean(v)\<close> on an id, a string, an optional number.\<close>

definition truthy_id :: "jsid \<Rightarrow> bool" where
  "truthy_id v = (case v of None \<Rightarrow> False | Some n \<Rightarrow> n \<noteq> 0)"

definition truthy_str :: "string option \<Rightarrow> bool" where
  "truthy_str v = (case v of None \<Rightarrow> False | Some s \<Rightarrow> s \<noteq> [])"

text \<open>A field that holds either one string or an array of strings (\<^verbatim>\<open>postedBy\<close>, \<^verbatim>\<open>hasTags\<close>).\<close>

datatype str_or_arr = OneStr string | StrArr "string list"

definition truthy_soa :: "str_or_arr option \<Rightarrow> bool" where
  "truthy_soa v = (case v of None \<Rightarrow> False | Some (OneStr s) \<Rightarrow> s \<noteq> [] | Some (StrArr _) \<Rightarrow> True)"

text \<open>\<^verbatim>\<open>s.startsWith(p)\<close>.\<close>

fun startsWith :: "string \<Rightarrow> string \<Rightarrow> bool" where
  "startsWith s [] = True"
| "startsWith [] (p # ps) = False"
| "startsWith (c # cs) (p # ps) = (c = p \<and> startsWith cs ps)"

text \<open>\<^verbatim>\<open>s.includes(t)\<close>: \<open>t\<close> occurs in \<open>s\<close> as a contiguous substring.\<close>

fun includes_str :: "string \<Rightarrow> string \<Rightarrow> bool" where
  "includes_str [] t = (t = [])"
| "includes_str (c # cs) t = (startsWith (c # cs) t \<or> includes_str cs t)"

text \<open>\<^verbatim>\<open>s.split(c)\<close> for a one-character separator: never empty, keeps empty pieces.\<close>

fun split_on :: "char \<Rightarrow> string \<Rightarrow> string list" where
  "split_on c [] = [[]]"
| "split_on c (x # xs) =
     (if x = c then [] # split_on c xs
      else (case split_on c xs of [] \<Rightarrow> [[x]] | w # ws \<Rightarrow> (x # w) # ws))"

text \<open>
  \<^verbatim>\<open>parseInt(s, 10)\<close>: leading white space is skipped, one sign is read, then the
  longest run of decimal digits; no digit gives \<^verbatim>\<open>NaN\<close>.
\<close>

definition is_space :: "char \<Rightarrow> bool" where
  "is_space c = (c = CHR '' '' \<or> c = CHR 0x09 \<or> c = CHR 0x0A \<or> c = CHR 0x0B
                 \<or> c = CHR 0x0C \<or> c = CHR 0x0D)"

definition digit_val :: "char \<Rightarrow> int option" where
  "digit_val c = map_of (zip ''0123456789'' [0, 1, 2, 3, 4, 5, 6, 7, 8, 9]) c"

definition is_digit :: "char \<Rightarrow> bool" where
  "is_digit c = (digit_val c \<noteq> None)"

fun digits_val :: "int \<Rightarrow> string \<Rightarrow> int" where
  "digits_val acc [] = acc"
| "digits_val acc (c # cs) =
     (case digit_val c of None \<Rightarrow> acc | Some d \<Rightarrow> digits_val (10 * acc + d) cs)"

definition parseInt10 :: "string option \<Rightarrow> int option" where
  "parseInt10 v =
     (case v of
        None \<Rightarrow> None
      | Some s \<Rightarrow>
          (let t = dropWhile is_space s;
               (neg, u) = (case t of
                             [] \<Rightarrow> (False, [])
                           | c # cs \<Rightarrow> if c = CHR ''-'' then (True, cs)
                                      else if c = CHR ''+'' then (False, cs)
                                      else (False, c # cs))
           in (case u of
                 [] \<Rightarrow> None
               | d # ds \<Rightarrow> if is_digit d
                           then Some ((if neg then - 1 else 1) * digits_val 0 (d # ds))
                           else None)))"

text \<open>
  \<^verbatim>\<open>xs.slice(a, b)\<close> with integer arguments: a negative index counts from the end,
  both indices are clamped to the array.
\<close>

definition js_slice :: "'a list \<Rightarrow> int \<Rightarrow> int \<Rightarrow> 'a list" where
  "js_slice xs a b =
     (let n = int (length xs);
          k = (if a < 0 then max (n + a) 0 else min a n);
          e = (if b < 0 then max (n + b) 0 else min b n)
      in take (nat (e - k)) (drop (nat k) xs))"

text \<open>\<^verbatim>\<open>Math.ceil(n / k)\<close> on integers, \<open>k\<close> not zero.\<close>

definition ceil_div :: "int \<Rightarrow> int \<Rightarrow> int" where
  "ceil_div n k = - ((- n) div k)"

text \<open>\<^verbatim>\<open>_.uniq\<close>: the first occurrence of every element, in order.\<close>

fun uniq :: "'a list \<Rightarrow> 'a list" where
  "uniq [] = []"
| "uniq (x # xs) = x # filter (\<lambda>y. y \<noteq> x) (uniq xs)"

text \<open>
  \<^verbatim>\<open>_.zipObject(keys, values)\<close> followed by a property read: the value stored at a
  key is the one paired with its last occurrence; a key beyond the end of \<open>values\<close>
  holds \<^verbatim>\<open>undefined\<close>.
\<close>

fun zip_pad :: "'k list \<Rightarrow> 'v option list \<Rightarrow> ('k \<times> 'v option) list" where
  "zip_pad [] vs = []"
| "zip_pad (k # ks) [] = (k, None) # zip_pad ks []"
| "zip_pad (k # ks) (v # vs) = (k, v) # zip_pad ks vs"

definition zipObject :: "'k list \<Rightarrow> 'v option list \<Rightarrow> 'k \<Rightarrow> 'v option" where
  "zipObject ks vs k =
     (case filter (\<lambda>kv. fst kv = k) (zip_pad ks vs) of
        [] \<Rightarrow> None
      | kv # kvs \<Rightarrow> snd (last (kv # kvs)))"

text \<open>
  \<^verbatim>\<open>Array.prototype.sort(cmp)\<close>. ECMAScript requires a stable sort and reads a
  \<^verbatim>\<open>NaN\<close> result of the comparator as \<open>0\<close>. For a comparator that is a total
  preorder the stable result is unique, and a stable insertion sort computes it; for an
  inconsistent comparator the order is left to the engine and this is one admissible
  choice.
\<close>

definition cmp_val :: "int option \<Rightarrow> int" where
  "cmp_val r = (case r of None \<Rightarrow> 0 | Some v \<Rightarrow> v)"

fun sort_insert :: "('a \<Rightarrow> 'a \<Rightarrow> int option) \<Rightarrow> 'a \<Rightarrow> 'a list \<Rightarrow> 'a list" where
  "sort_insert cmp x [] = [x]"
| "sort_insert cmp x (y # ys) =
     (if cmp_val (cmp x y) \<le> 0 then x # y # ys else y # sort_insert cmp x ys)"

fun js_sort :: "('a \<Rightarrow> 'a \<Rightarrow> int option) \<Rightarrow> 'a list \<Rightarrow> 'a list" where
  "js_sort cmp [] = []"
| "js_sort cmp (x # xs) = sort_insert cmp x (js_sort cmp xs)"

text \<open>
  \<^verbatim>\<open>Number(s)\<close> on a string, for the values of this model: surrounding white space is
  ignored, the empty string is \<open>0\<close>, an optionally signed run of decimal digits is its
  value, anything else is \<^verbatim>\<open>NaN\<close> (fractions, exponents and hexadecimal literals lie
  outside the integer model).
\<close>

definition str_to_number :: "string \<Rightarrow> int option" where
  "str_to_number s =
     (let t = rev (dropWhile is_space (rev (dropWhile is_space s)))
      in if t = [] then Some 0
         else (let u = (if hd t = CHR ''-'' \<or> hd t = CHR ''+'' then tl t else t)
               in if u \<noteq> [] \<and> list_all is_digit u
                  then Some ((if hd t = CHR ''-'' then - 1 else 1) * digits_val 0 u)
                  else None))"

text \<open>String comparison \<^verbatim>\<open>a < b\<close>: lexicographic on the code units.\<close>

fun str_lt :: "string \<Rightarrow> string \<Rightarrow> bool" where
  "str_lt [] [] = False"
| "str_lt [] (y # ys) = True"
| "str_lt (x # xs) [] = False"
| "str_lt (x # xs) (y # ys) =
     (if x = y then str_lt xs ys else (of_char x :: nat) < of_char y)"


section \<open>Data model\<close>

text \<open>A primitive attribute value, and an object fetched with a chosen set of fields.\<close>

datatype prim = PUndef | PNum int | PStr string

type_synonym obj = "(string \<times> prim) list"

definition obj_get :: "obj \<Rightarrow> string \<Rightarrow> prim" where
  "obj_get ob k = (case map_of ob k of None \<Rightarrow> PUndef | Some v \<Rightarrow> v)"

text \<open>\<^verbatim>\<open>ITag\<close>, and the topic object as \<^verbatim>\<open>topics.getTopicsData\<close> delivers it.\<close>

record itag =
  tag_value :: string

record topic_data =
  rt_cid :: int
  rt_deleted :: int
  rt_postcount :: int
  rt_title :: string
  rt_tags :: "itag list option"

text \<open>
  \<^verbatim>\<open>ITopic\<close> after \<^verbatim>\<open>getTopics\<close>: the tags are plain strings and the category
  snapshot is attached when one was fetched.
\<close>

record itopic =
  t_cid :: int
  t_deleted :: int
  t_postcount :: int
  t_title :: string
  t_tags :: "string list option"
  t_category :: "obj option"

record iuser =
  username :: string

text \<open>
  The seven fields \<^verbatim>\<open>getMatchedPosts\<close> asks for, and \<^verbatim>\<open>IPost\<close> as the pipeline
  enriches it with the parent topic, its category and the author.
\<close>

record post_fields =
  f_pid :: int
  f_uid :: int
  f_tid :: int
  f_timestamp :: int
  f_deleted :: int
  f_upvotes :: int
  f_downvotes :: int

record ipost =
  p_pid :: int
  p_uid :: int
  p_tid :: int
  p_timestamp :: int
  p_deleted :: int
  p_upvotes :: int
  p_downvotes :: int
  p_topic :: "itopic option"
  p_category :: "obj option"
  p_user :: "iuser option"

text \<open>\<^verbatim>\<open>ISearchData\<close>. An absent field is \<open>None\<close> (or \<open>False\<close> for a flag).\<close>

record search_data =
  query :: "string option"
  searchIn :: "string option"
  matchWords :: "string option"
  categories :: "prim list option"
  searchChildren :: bool
  postedBy :: "str_or_arr option"
  sortBy :: "string option"
  sortDirection :: "string option"
  replies :: "string option"
  repliesFilter :: "string option"
  timeRange :: "string option"
  timeFilter :: "string option"
  hasTags :: "str_or_arr option"
  page :: "int option"
  itemsPerPage :: "int option"
  returnIds :: bool
  uid :: "int option"


section \<open>The three filters\<close>

text \<open>
  \<^verbatim>\<open>filterByPostcount\<close>. The callback reads \<^verbatim>\<open>post?.topic.postcount\<close>, which throws
  on a post without topic; a comparison with \<^verbatim>\<open>NaN\<close> is false.
\<close>

definition filterByPostcount :: "ipost list \<Rightarrow> string option \<Rightarrow> string option \<Rightarrow> error + ipost list" where
  "filterByPostcount posts postCount repliesFilter' =
     (let parsedPostCount = parseInt10 postCount
      in if truthy_str postCount
         then (if list_ex (\<lambda>post. p_topic post = None) posts then Inl TypeError
               else Inr (filter
                  (\<lambda>post. case (p_topic post, parsedPostCount) of
                             (Some t, Some n) \<Rightarrow>
                               if repliesFilter' = Some ''atleast'' then t_postcount t \<ge> n
                               else t_postcount t \<le> n
                           | _ \<Rightarrow> False) posts))
         else Inr posts)"

text \<open>\<^verbatim>\<open>filterByTimerange\<close>; \<open>now\<close> is the value of \<^verbatim>\<open>Date.now()\<close>.\<close>

definition filterByTimerange :: "int \<Rightarrow> ipost list \<Rightarrow> string option \<Rightarrow> string option \<Rightarrow> ipost list" where
  "filterByTimerange now posts timeRange' timeFilter' =
     (let parsedTimeRange = map_option (\<lambda>n. n * 1000) (parseInt10 timeRange')
      in if truthy_str timeRange'
         then (let time = map_option (\<lambda>r. now - r) parsedTimeRange
               in if timeFilter' = Some ''newer''
                  then filter (\<lambda>post. case time of None \<Rightarrow> False | Some t \<Rightarrow> p_timestamp post \<ge> t) posts
                  else filter (\<lambda>post. case time of None \<Rightarrow> False | Some t \<Rightarrow> p_timestamp post \<le> t) posts)
         else posts)"

text \<open>\<^verbatim>\<open>filterByTags\<close>.\<close>

definition filterByTags :: "ipost list \<Rightarrow> str_or_arr option \<Rightarrow> ipost list" where
  "filterByTags posts hasTags' =
     (case hasTags' of
        Some (StrArr wanted) \<Rightarrow>
          if wanted \<noteq> []
          then filter
                 (\<lambda>post. case p_topic post of
                            None \<Rightarrow> False
                          | Some t \<Rightarrow>
                              (case t_tags t of
                                 None \<Rightarrow> False
                               | Some tags \<Rightarrow>
                                   tags \<noteq> [] \<and> list_all (\<lambda>tag. tag \<in> set tags) wanted))
                 posts
          else posts
      | _ \<Rightarrow> posts)"

text \<open>Lines 174 to 176 of \<^verbatim>\<open>filterAndSort\<close>: the three filters in their order.\<close>

definition applyFilters :: "int \<Rightarrow> ipost list \<Rightarrow> search_data \<Rightarrow> error + ipost list" where
  "applyFilters now posts data =
     (case filterByPostcount posts (replies data) (repliesFilter data) of
        Inl e \<Rightarrow> Inl e
      | Inr ps \<Rightarrow>
          Inr (filterByTags (filterByTimerange now ps (timeRange data) (timeFilter data))
                 (hasTags data)))"


section \<open>Sorting by an attribute path\<close>

text \<open>
  What a property read on an enriched post can yield: a primitive, one of the three
  attached objects, or some other object (the tag array of a topic), which the model
  keeps opaque.
\<close>

datatype pval = Prim prim | VTopic itopic | VUser iuser | VCat obj | VOpaque

definition topic_prop :: "string \<Rightarrow> itopic \<Rightarrow> pval" where
  "topic_prop f t =
     (if f = ''cid'' then Prim (PNum (t_cid t))
      else if f = ''deleted'' then Prim (PNum (t_deleted t))
      else if f = ''postcount'' then Prim (PNum (t_postcount t))
      else if f = ''title'' then Prim (PStr (t_title t))
      else if f = ''tags'' then (case t_tags t of None \<Rightarrow> Prim PUndef | Some _ \<Rightarrow> VOpaque)
      else if f = ''category'' then (case t_category t of None \<Rightarrow> Prim PUndef | Some c \<Rightarrow> VCat c)
      else Prim PUndef)"

definition user_prop :: "string \<Rightarrow> iuser \<Rightarrow> pval" where
  "user_prop f u = (if f = ''username'' then Prim (PStr (username u)) else Prim PUndef)"

text \<open>\<^verbatim>\<open>post[f]\<close>.\<close>

definition post_prop :: "string \<Rightarrow> ipost \<Rightarrow> pval" where
  "post_prop f p =
     (if f = ''pid'' then Prim (PNum (p_pid p))
      else if f = ''uid'' then Prim (PNum (p_uid p))
      else if f = ''tid'' then Prim (PNum (p_tid p))
      else if f = ''timestamp'' then Prim (PNum (p_timestamp p))
      else if f = ''deleted'' then Prim (PNum (p_deleted p))
      else if f = ''upvotes'' then Prim (PNum (p_upvotes p))
      else if f = ''downvotes'' then Prim (PNum (p_downvotes p))
      else if f = ''topic'' then (case p_topic p of None \<Rightarrow> Prim PUndef | Some t \<Rightarrow> VTopic t)
      else if f = ''category'' then (case p_category p of None \<Rightarrow> Prim PUndef | Some c \<Rightarrow> VCat c)
      else if f = ''user'' then (case p_user p of None \<Rightarrow> Prim PUndef | Some u \<Rightarrow> VUser u)
      else Prim PUndef)"

text \<open>\<^verbatim>\<open>v[f]\<close> on the result of a first read: it throws on \<^verbatim>\<open>undefined\<close>.\<close>

definition sub_prop :: "pval \<Rightarrow> string \<Rightarrow> error + pval" where
  "sub_prop v f =
     (case v of
        Prim PUndef \<Rightarrow> Inl TypeError
      | Prim _ \<Rightarrow> Inr (Prim PUndef)
      | VTopic t \<Rightarrow> Inr (topic_prop f t)
      | VUser u \<Rightarrow> Inr (user_prop f u)
      | VCat c \<Rightarrow> Inr (Prim (obj_get c f))
      | VOpaque \<Rightarrow> Inr (Prim PUndef))"

text \<open>\<^verbatim>\<open>post[f0][f1]\<close> where the first read is known to be defined.\<close>

definition path2 :: "string \<Rightarrow> string \<Rightarrow> ipost \<Rightarrow> pval" where
  "path2 f0 f1 p = (case sub_prop (post_prop f0 p) f1 of Inl _ \<Rightarrow> Prim PUndef | Inr v \<Rightarrow> v)"

definition truthy_pval :: "pval \<Rightarrow> bool" where
  "truthy_pval v =
     (case v of
        Prim PUndef \<Rightarrow> False
      | Prim (PNum n) \<Rightarrow> n \<noteq> 0
      | Prim (PStr s) \<Rightarrow> s \<noteq> []
      | _ \<Rightarrow> True)"

text \<open>\<^verbatim>\<open>Number(v)\<close>; an object counts as \<^verbatim>\<open>NaN\<close>.\<close>

definition to_number :: "pval \<Rightarrow> int option" where
  "to_number v =
     (case v of
        Prim (PNum n) \<Rightarrow> Some n
      | Prim (PStr s) \<Rightarrow> str_to_number s
      | _ \<Rightarrow> None)"

text \<open>\<^verbatim>\<open>direction * (b - a)\<close>.\<close>

definition num_cmp :: "int \<Rightarrow> pval \<Rightarrow> pval \<Rightarrow> int option" where
  "num_cmp direction b a =
     (case (to_number b, to_number a) of
        (Some x, Some y) \<Rightarrow> Some (direction * (x - y))
      | _ \<Rightarrow> None)"

text \<open>\<^verbatim>\<open>a > b\<close>: two strings compare as strings, anything else as numbers.\<close>

definition js_gt :: "pval \<Rightarrow> pval \<Rightarrow> bool" where
  "js_gt a b =
     (case (a, b) of
        (Prim (PStr s), Prim (PStr t)) \<Rightarrow> str_lt t s
      | _ \<Rightarrow> (case (to_number a, to_number b) of
                (Some x, Some y) \<Rightarrow> x > y
              | _ \<Rightarrow> False))"

definition str_cmp :: "int \<Rightarrow> pval \<Rightarrow> pval \<Rightarrow> int option" where
  "str_cmp direction a b =
     (if js_gt a b then Some direction
      else if js_gt b a then Some (- direction)
      else Some 0)"

text \<open>
  \<^verbatim>\<open>sortPosts\<close>. The source sorts the array in place and its caller ignores the
  returned value; the model returns the array as it stands after the call.
  \<open>isNumber\<close> is \<^verbatim>\<open>utils.isNumber\<close>, a function of another module. A comparator of
  the two-level branch throws on a post whose first-level value is undefined; the
  comparator reaches every post as soon as there are two of them.
\<close>

definition sortPosts :: "(pval \<Rightarrow> bool) \<Rightarrow> ipost list \<Rightarrow> search_data \<Rightarrow> error + ipost list" where
  "sortPosts isNumber posts data =
     (if posts = [] \<or> sortBy data = Some ''relevance'' then Inr posts
      else
        (case sortBy data of
           None \<Rightarrow> Inl TypeError
         | Some sb \<Rightarrow>
            (let sortDirection' = (if truthy_str (sortDirection data)
                                   then sortDirection data else Some ''desc'');
                 direction = (if sortDirection' = Some ''desc'' then 1 else - 1);
                 fields = split_on CHR ''.'' sb
             in if length fields = 1
                then Inr (js_sort (\<lambda>post_1 post_2.
                            num_cmp direction (post_prop (fields ! 0) post_2)
                                              (post_prop (fields ! 0) post_1)) posts)
                else
                  (let firstPost = hd posts;
                       isValid = (length fields = 2
                                  \<and> truthy_pval (path2 (fields ! 0) (fields ! 1) firstPost))
                   in if \<not> isValid then Inr posts
                      else if 2 \<le> length posts
                              \<and> list_ex (\<lambda>p. post_prop (fields ! 0) p = Prim PUndef) posts
                      then Inl TypeError
                      else if isNumber (path2 (fields ! 0) (fields ! 1) firstPost)
                      then Inr (js_sort (\<lambda>post_1 post_2.
                                  num_cmp direction (path2 (fields ! 0) (fields ! 1) post_2)
                                                    (path2 (fields ! 0) (fields ! 1) post_1)) posts)
                      else Inr (js_sort (\<lambda>post_1 post_2.
                                  str_cmp direction (path2 (fields ! 0) (fields ! 1) post_1)
                                                    (path2 (fields ! 0) (fields ! 1) post_2)) posts)))))"


section \<open>Collaborators of the module\<close>

text \<open>
  Everything the module imports from other modules is a parameter of the model. A
  batched fetcher that answers positionally is given by the value it holds for one
  key; the fetcher maps it over the keys it is asked for.
\<close>

record post_obj =
  po_content :: "string option"
  po_tid :: jsid

record title_obj =
  to_title :: "string option"

record summary =
  s_pid :: jsid
  s_uid :: int

text \<open>
  The paged answer is an object whose keys listeners and extension fields may set, so
  it is kept as its keys with their values, in insertion order. \<open>obj_set\<close> is the
  assignment \<^verbatim>\<open>o[k] = v\<close> and \<open>object_assign\<close> is \<^verbatim>\<open>Object.assign(target, source)\<close>:
  every key of the source is written into the target, over a value already there.
\<close>

datatype rval = Summaries "summary list" | Plain prim

type_synonym robj = "(string \<times> rval) list"

fun obj_set :: "string \<Rightarrow> rval \<Rightarrow> robj \<Rightarrow> robj" where
  "obj_set k v [] = [(k, v)]"
| "obj_set k v (kv # kvs) = (if fst kv = k then (k, v) # kvs else kv # obj_set k v kvs)"

definition object_assign :: "robj \<Rightarrow> robj \<Rightarrow> robj" where
  "object_assign target source = fold (\<lambda>kv t. obj_set (fst kv) (snd kv) t) source target"

text \<open>The answer of the module: a page of summaries, the raw ids, or what another
  module or an extension answered.\<close>

datatype response =
    Paged robj
  | Ids "jsid list" "jsid list"
  | Foreign obj
  | HookParams search_data

record stores =
  post_store :: "int \<Rightarrow> post_fields option"
  topic_store :: "int \<Rightarrow> topic_data option"
  user_store :: "int \<Rightarrow> iuser option"
  category_store :: "int \<Rightarrow> string list \<Rightarrow> obj option"
  db_post :: "int \<Rightarrow> post_obj option"
  db_topic :: "int \<Rightarrow> title_obj option"
  bookmark_set :: "int \<Rightarrow> int list"

record services =
  topics_search :: "string \<Rightarrow> string \<Rightarrow> jsid list"
  topics_getMainPids :: "jsid list \<Rightarrow> jsid list"
  privileges_posts_filter :: "string \<Rightarrow> jsid list \<Rightarrow> int \<Rightarrow> jsid list"
  posts_filterPidsByCid :: "int list \<Rightarrow> prim list \<Rightarrow> int list"
  posts_filterPidsByUid :: "int list \<Rightarrow> int list \<Rightarrow> int list"
  posts_getPostSummaryByPids :: "jsid list \<Rightarrow> int \<Rightarrow> summary list"
  categories_getCidsByPrivilege :: "string \<Rightarrow> int \<Rightarrow> string \<Rightarrow> prim list"
  categories_getChildrenCids :: "prim \<Rightarrow> prim list"
  privileges_categories_filterCids :: "string \<Rightarrow> prim list \<Rightarrow> int \<Rightarrow> prim list"
  user_getWatchedCategories :: "int \<Rightarrow> prim list"
  user_getUidsByUsernames :: "string list \<Rightarrow> int list"
  user_search :: "search_data \<Rightarrow> obj"
  categories_search :: "search_data \<Rightarrow> obj"
  topics_searchAndLoadTags :: "search_data \<Rightarrow> obj"
  utils_isNumber :: "pval \<Rightarrow> bool"
  date_now :: int
  elapsed :: string

text \<open>The payloads of the five hooks.\<close>

record query_params =
  qp_index :: string
  qp_content :: "string option"
  qp_matchWords :: string
  qp_cid :: "prim list"
  qp_uid :: "int list"
  qp_searchData :: search_data
  qp_ids :: "jsid list"

datatype query_result = QArray "jsid list" | QObject query_params

text \<open>
  The metadata of \<^verbatim>\<open>filter:search.inContent\<close>: the two keys the module sets, and the
  keys a listener added.
\<close>

record metadata =
  m_pids :: "jsid list"
  m_data :: search_data
  m_extra :: robj

record fas_payload =
  fs_pids :: "jsid list"
  fs_posts :: "ipost option list"
  fs_data :: search_data

text \<open>
  The listeners registered for each hook, in their order. The listeners of
  \<^verbatim>\<open>filter:search.contentGetResult\<close> act on the result object they are handed, whose
  returned value the module ignores.
\<close>

record hooks =
  on_searchIn :: "(response \<Rightarrow> response) list"
  on_query :: "(query_result \<Rightarrow> query_result) list"
  on_inContent :: "(metadata \<Rightarrow> metadata) list"
  on_contentGetResult :: "(robj \<Rightarrow> robj) list"
  on_filterAndSort :: "(fas_payload \<Rightarrow> fas_payload) list"

record env =
  st :: stores
  sv :: services
  hk :: hooks

text \<open>
  Modelled from the spec: \<^verbatim>\<open>plugins.hooks.fire\<close> and \<^verbatim>\<open>plugins.hooks.hasListeners\<close>,
  of the plugin module. An extension point is an ordered middleware list, each
  listener receiving and returning the accumulated state; without registrations the
  state comes back as it was.
\<close>

definition fire :: "('a \<Rightarrow> 'a) list \<Rightarrow> 'a \<Rightarrow> 'a" where
  "fire listeners params = fold (\<lambda>h acc. h acc) listeners params"

definition hasListeners :: "('a \<Rightarrow> 'a) list \<Rightarrow> bool" where
  "hasListeners listeners = (listeners \<noteq> [])"

text \<open>
  Modelled from the spec: \<^verbatim>\<open>batch.processSortedSet\<close> with \<^verbatim>\<open>batch: 500\<close>, of the batch
  module. The set is read in bounded batches, in order.
\<close>

function chunks :: "nat \<Rightarrow> 'a list \<Rightarrow> 'a list list" where
  "chunks n xs = (if n = 0 \<or> xs = [] then [] else take n xs # chunks n (drop n xs))"
  by pat_completeness auto
termination
  by (relation "measure (\<lambda>(n, xs). length xs)") auto

declare chunks.simps [simp del]


section \<open>Effects: the calls a run makes\<close>

text \<open>
  A run of an asynchronous function yields a value or an error, and the calls to
  collaborators it made, in the order they were issued.
\<close>

datatype call =
    Call_getPostsFields "jsid list"
  | Call_getTopicsData "int list"
  | Call_getUsersFields "int list"
  | Call_getCategoryFields "jsid list" "string list"
  | Call_indexQuery string
  | Call_topicsSearch string string
  | Call_bookmarkBatch int "int list"
  | Call_filterPidsByCid
  | Call_filterPidsByUid
  | Call_dbPostFields "int list"
  | Call_dbTopicFields "jsid list"
  | Call_getMainPids "jsid list"
  | Call_privilegesFilter "jsid list"
  | Call_getPostSummaryByPids "jsid list"
  | Call_getCidsByPrivilege
  | Call_getWatchedCategories
  | Call_getChildrenCids prim
  | Call_filterCids
  | Call_getUidsByUsernames "string list"
  | Call_userSearch
  | Call_categoriesSearch
  | Call_searchAndLoadTags
  | Call_fire string

type_synonym 'a eff = "(error + 'a) \<times> call list"

definition eff_ret :: "'a \<Rightarrow> 'a eff" where
  "eff_ret x = (Inr x, [])"

definition eff_throw :: "error \<Rightarrow> 'a eff" where
  "eff_throw e = (Inl e, [])"

definition eff_lift :: "error + 'a \<Rightarrow> 'a eff" where
  "eff_lift r = (r, [])"

text \<open>A call \<open>c\<close> to a collaborator that answered \<open>v\<close>.\<close>

definition eff_call :: "call \<Rightarrow> 'a \<Rightarrow> 'a eff" where
  "eff_call c v = (Inr v, [c])"

text \<open>\<^verbatim>\<open>await\<close> and go on: an error ends the run.\<close>

definition eff_bind :: "'a eff \<Rightarrow> ('a \<Rightarrow> 'b eff) \<Rightarrow> 'b eff" where
  "eff_bind m f =
     (case m of
        (Inl e, l) \<Rightarrow> (Inl e, l)
      | (Inr x, l) \<Rightarrow> (case f x of (r, l') \<Rightarrow> (r, l @ l')))"

text \<open>\<^verbatim>\<open>Promise.all\<close> of two runs: both are started, the first error wins.\<close>

definition eff_both :: "'a eff \<Rightarrow> 'b eff \<Rightarrow> ('a \<times> 'b) eff" where
  "eff_both m1 m2 =
     (case (m1, m2) of
        ((Inl e, l1), (_, l2)) \<Rightarrow> (Inl e, l1 @ l2)
      | ((Inr x, l1), (Inl e, l2)) \<Rightarrow> (Inl e, l1 @ l2)
      | ((Inr x, l1), (Inr y, l2)) \<Rightarrow> (Inr (x, y), l1 @ l2))"

text \<open>A loop over a list that awaits each step.\<close>

fun eff_mapM :: "('a \<Rightarrow> 'b eff) \<Rightarrow> 'a list \<Rightarrow> 'b list eff" where
  "eff_mapM f [] = eff_ret []"
| "eff_mapM f (x # xs) =
     eff_bind (f x) (\<lambda>y. eff_bind (eff_mapM f xs) (\<lambda>ys. eff_ret (y # ys)))"


section \<open>Hydration: \<^verbatim>\<open>getMatchedPosts\<close> and its helpers\<close>

text \<open>\<^verbatim>\<open>getCategories\<close>: \<^verbatim>\<open>null\<close> unless the sort path names a category attribute.\<close>

definition getCategories :: "env \<Rightarrow> jsid list \<Rightarrow> search_data \<Rightarrow> obj option list option eff" where
  "getCategories e cids data =
     (case sortBy data of
        None \<Rightarrow> eff_throw TypeError
      | Some sb \<Rightarrow>
          (let categoryFields = (if startsWith sb ''category.''
                                 then [split_on CHR ''.'' sb ! 1] else [])
           in if categoryFields = [] then eff_ret None
              else eff_call (Call_getCategoryFields cids categoryFields)
                     (Some (map (\<lambda>cid. case cid of
                                         None \<Rightarrow> None
                                       | Some c \<Rightarrow> category_store (st e) c categoryFields)
                                cids))))"

text \<open>\<^verbatim>\<open>getTopics\<close>.\<close>

definition getTopics :: "env \<Rightarrow> int list \<Rightarrow> search_data \<Rightarrow> itopic option list eff" where
  "getTopics e tids data =
     eff_bind (eff_call (Call_getTopicsData tids) (map (topic_store (st e)) tids))
       (\<lambda>topicsData.
          (let cids = uniq (map (map_option rt_cid) topicsData)
           in eff_bind (getCategories e cids data)
                (\<lambda>categories'.
                   (let cidToCategory = zipObject cids (case categories' of None \<Rightarrow> [] | Some cs \<Rightarrow> cs)
                    in eff_ret
                         (map (map_option
                                 (\<lambda>topic'.
                                    \<lparr>t_cid = rt_cid topic',
                                     t_deleted = rt_deleted topic',
                                     t_postcount = rt_postcount topic',
                                     t_title = rt_title topic',
                                     t_tags = map_option (map tag_value) (rt_tags topic'),
                                     t_category = (if categories' \<noteq> None
                                                   then cidToCategory (Some (rt_cid topic'))
                                                   else None)\<rparr>))
                              topicsData)))))"

text \<open>\<^verbatim>\<open>getUsers\<close>.\<close>

definition getUsers :: "env \<Rightarrow> int list \<Rightarrow> search_data \<Rightarrow> iuser option list eff" where
  "getUsers e uids data =
     (case sortBy data of
        None \<Rightarrow> eff_throw TypeError
      | Some sb \<Rightarrow>
          if startsWith sb ''user''
          then eff_call (Call_getUsersFields uids) (map (user_store (st e)) uids)
          else eff_ret [])"

text \<open>\<^verbatim>\<open>getMatchedPosts\<close>.\<close>

definition getMatchedPosts :: "env \<Rightarrow> jsid list \<Rightarrow> search_data \<Rightarrow> ipost list eff" where
  "getMatchedPosts e pids data =
     eff_bind (eff_call (Call_getPostsFields pids)
                 (map (\<lambda>pid. case pid of None \<Rightarrow> None | Some i \<Rightarrow> post_store (st e) i) pids))
       (\<lambda>fetched.
          (let postsData = filter (\<lambda>post. f_deleted post = 0)
                             (List.map_filter (\<lambda>post. post) fetched);
               uids = uniq (map f_uid postsData);
               tids = uniq (map f_tid postsData)
           in eff_bind (eff_both (getUsers e uids data) (getTopics e tids data))
                (\<lambda>(users, topics).
                   (let tidToTopic = zipObject tids topics;
                        uidToUser = zipObject uids users;
                        enriched =
                          map (\<lambda>post.
                                 \<lparr>p_pid = f_pid post,
                                  p_uid = f_uid post,
                                  p_tid = f_tid post,
                                  p_timestamp = f_timestamp post,
                                  p_deleted = f_deleted post,
                                  p_upvotes = f_upvotes post,
                                  p_downvotes = f_downvotes post,
                                  p_topic = tidToTopic (f_tid post),
                                  p_category = (case tidToTopic (f_tid post) of
                                                  None \<Rightarrow> None
                                                | Some t \<Rightarrow> t_category t),
                                  p_user = uidToUser (f_uid post)\<rparr>)
                              postsData
                    in eff_ret
                         (filter (\<lambda>post. case p_topic post of
                                           None \<Rightarrow> False
                                         | Some t \<Rightarrow> t_deleted t = 0)
                                 enriched)))))"


section \<open>\<^verbatim>\<open>filterAndSort\<close>\<close>

text \<open>The test of the first lines: the candidates go back as they came.\<close>

definition fastPath :: "env \<Rightarrow> search_data \<Rightarrow> bool" where
  "fastPath e data =
     (sortBy data = Some ''relevance''
      \<and> \<not> truthy_str (replies data)
      \<and> \<not> truthy_str (timeRange data)
      \<and> \<not> truthy_soa (hasTags data)
      \<and> searchIn data \<noteq> Some ''bookmarks''
      \<and> \<not> hasListeners (on_filterAndSort (hk e)))"

text \<open>
  Line 297: \<^verbatim>\<open>sortPosts\<close> writes the default direction into the request once it is
  past its first test. The request is one shared object, so the write is seen by
  whoever reads the request afterwards.
\<close>

definition sortDirectionWrite :: "ipost list \<Rightarrow> search_data \<Rightarrow> search_data" where
  "sortDirectionWrite sorted_input data =
     (if sorted_input = [] \<or> sortBy data = Some ''relevance'' then data
      else data\<lparr>sortDirection := (if truthy_str (sortDirection data)
                                     then sortDirection data else Some ''desc'')\<rparr>)"

definition filterAndSort :: "env \<Rightarrow> jsid list \<Rightarrow> search_data \<Rightarrow> jsid list eff" where
  "filterAndSort e pids data =
     (if fastPath e data then eff_ret pids
      else
        eff_bind (getMatchedPosts e pids data)
          (\<lambda>postsData.
             if postsData = [] then eff_ret pids
             else
               eff_bind (eff_lift (applyFilters (date_now (sv e)) postsData data))
                 (\<lambda>filtered.
                    eff_bind (eff_lift (sortPosts (utils_isNumber (sv e)) filtered data))
                      (\<lambda>sorted.
                         eff_bind (eff_call (Call_fire ''filter:search.filterAndSort'')
                                     (fire (on_filterAndSort (hk e))
                                        \<lparr>fs_pids = pids,
                                         fs_posts = map Some sorted,
                                         fs_data = sortDirectionWrite filtered data\<rparr>))
                           (\<lambda>result.
                              eff_ret (map (map_option p_pid) (fs_posts result)))))))"

text \<open>The request as a run of \<^verbatim>\<open>filterAndSort\<close> leaves it for its caller.\<close>

definition requestAfterFilterAndSort :: "env \<Rightarrow> jsid list \<Rightarrow> search_data \<Rightarrow> search_data" where
  "requestAfterFilterAndSort e pids data =
     (if fastPath e data then data
      else
        (case fst (getMatchedPosts e pids data) of
           Inl _ \<Rightarrow> data
         | Inr postsData \<Rightarrow>
             if postsData = [] then data
             else (case applyFilters (date_now (sv e)) postsData data of
                     Inl _ \<Rightarrow> data
                   | Inr filtered \<Rightarrow> sortDirectionWrite filtered data)))"


section \<open>\<^verbatim>\<open>searchInBookmarks\<close>\<close>

text \<open>
  The callback of the \<^verbatim>\<open>filter\<close> of one batch, at one index: it reads the content
  and the title of the parent topic (either read throws on a missing value) and
  tests the tokens with \<^verbatim>\<open>some\<close> or \<^verbatim>\<open>every\<close>.
\<close>

definition tokensMatch :: "string option \<Rightarrow> string list \<Rightarrow> string \<Rightarrow> string \<Rightarrow> bool" where
  "tokensMatch matchWords' tokens content title =
     (if matchWords' = Some ''any''
      then list_ex (\<lambda>token. includes_str content token \<or> includes_str title token) tokens
      else list_all (\<lambda>token. includes_str content token \<or> includes_str title token) tokens)"

definition keepBookmark ::
  "string option \<Rightarrow> string list \<Rightarrow> (jsid \<Rightarrow> title_obj option) \<Rightarrow> post_obj option \<Rightarrow> error + bool" where
  "keepBookmark matchWords' tokens tidToTopic postData_i =
     (case postData_i of
        None \<Rightarrow> Inl TypeError
      | Some po \<Rightarrow>
          (case po_content po of
             None \<Rightarrow> Inl TypeError
           | Some content \<Rightarrow>
               (case tidToTopic (po_tid po) of
                  None \<Rightarrow> Inl TypeError
                | Some tp \<Rightarrow>
                    (case to_title tp of
                       None \<Rightarrow> Inl TypeError
                     | Some title \<Rightarrow> Inr (tokensMatch matchWords' tokens content title)))))"

text \<open>\<^verbatim>\<open>pids.filter((_, i) => ...)\<close> with a callback that can throw.\<close>

fun filterIdx :: "('b \<Rightarrow> error + bool) \<Rightarrow> 'a list \<Rightarrow> 'b list \<Rightarrow> error + 'a list" where
  "filterIdx f [] ds = Inr []"
| "filterIdx f (x # xs) [] = Inl TypeError"
| "filterIdx f (x # xs) (d # ds) =
     (case f d of
        Inl e \<Rightarrow> Inl e
      | Inr keep \<Rightarrow>
          (case filterIdx f xs ds of
             Inl e \<Rightarrow> Inl e
           | Inr ys \<Rightarrow> Inr (if keep then x # ys else ys)))"

text \<open>The callback handed to \<^verbatim>\<open>batch.processSortedSet\<close>: what one batch contributes.\<close>

definition bookmarkBatch ::
  "env \<Rightarrow> search_data \<Rightarrow> prim list \<Rightarrow> int list \<Rightarrow> int list \<Rightarrow> int list eff" where
  "bookmarkBatch e data searchCids searchUids pids0 =
     eff_bind (if searchCids \<noteq> []
               then eff_call Call_filterPidsByCid (posts_filterPidsByCid (sv e) pids0 searchCids)
               else eff_ret pids0)
       (\<lambda>pids1.
          eff_bind (if searchUids \<noteq> []
                    then eff_call Call_filterPidsByUid (posts_filterPidsByUid (sv e) pids1 searchUids)
                    else eff_ret pids1)
            (\<lambda>pids2.
               if truthy_str (query data)
               then
                 (let tokens = split_on CHR '' '' (the (query data))
                  in eff_bind (eff_call (Call_dbPostFields pids2) (map (db_post (st e)) pids2))
                       (\<lambda>postData.
                          if list_ex (\<lambda>p. p = None) postData then eff_throw TypeError
                          else
                            (let tids = uniq (map (\<lambda>p. po_tid (the p)) postData)
                             in eff_bind (eff_call (Call_dbTopicFields tids)
                                            (map (\<lambda>tid. case tid of
                                                          None \<Rightarrow> None
                                                        | Some t \<Rightarrow> db_topic (st e) t) tids))
                                  (\<lambda>topicData.
                                     (let tidToTopic = zipObject tids topicData
                                      in eff_lift
                                           (filterIdx (keepBookmark (matchWords data) tokens tidToTopic)
                                              pids2 postData))))))
               else eff_ret pids2))"

definition searchInBookmarks ::
  "env \<Rightarrow> search_data \<Rightarrow> prim list \<Rightarrow> int list \<Rightarrow> jsid list eff" where
  "searchInBookmarks e data searchCids searchUids =
     (let u = (case uid data of None \<Rightarrow> 0 | Some n \<Rightarrow> n)
      in eff_bind
           (eff_mapM (\<lambda>batch. eff_bind (eff_call (Call_bookmarkBatch u batch) batch)
                                 (bookmarkBatch e data searchCids searchUids))
              (chunks 500 (bookmark_set (st e) u)))
           (\<lambda>kept. eff_ret (map Some (concat kept))))"


text \<open>Lines 128 to 134: the ids of a batch that pass the category and author scope.\<close>

definition scopedPids :: "env \<Rightarrow> prim list \<Rightarrow> int list \<Rightarrow> int list \<Rightarrow> int list" where
  "scopedPids e searchCids searchUids pids =
     (let pids1 = (if searchCids \<noteq> []
                   then posts_filterPidsByCid (sv e) pids searchCids else pids)
      in if searchUids \<noteq> [] then posts_filterPidsByUid (sv e) pids1 searchUids else pids1)"


section \<open>Scope resolution\<close>

definition truthy_prim :: "prim \<Rightarrow> bool" where
  "truthy_prim v = (case v of PUndef \<Rightarrow> False | PNum n \<Rightarrow> n \<noteq> 0 | PStr s \<Rightarrow> s \<noteq> [])"

definition uid_of :: "search_data \<Rightarrow> int" where
  "uid_of data = (case uid data of None \<Rightarrow> 0 | Some n \<Rightarrow> n)"

definition categories_of :: "search_data \<Rightarrow> prim list" where
  "categories_of data = (case categories data of None \<Rightarrow> [] | Some cs \<Rightarrow> cs)"

definition getWatchedCids :: "env \<Rightarrow> search_data \<Rightarrow> prim list eff" where
  "getWatchedCids e data =
     (if PStr ''watched'' \<notin> set (categories_of data) then eff_ret []
      else eff_call Call_getWatchedCategories (user_getWatchedCategories (sv e) (uid_of data)))"

definition getChildrenCids :: "env \<Rightarrow> search_data \<Rightarrow> prim list eff" where
  "getChildrenCids e data =
     (if \<not> searchChildren data then eff_ret []
      else
        eff_bind (eff_mapM (\<lambda>cid. eff_call (Call_getChildrenCids cid)
                                     (categories_getChildrenCids (sv e) cid))
                    (categories_of data))
          (\<lambda>childrenCids.
             eff_call Call_filterCids
               (privileges_categories_filterCids (sv e) ''find''
                  (uniq (concat childrenCids)) (uid_of data))))"

definition getSearchCids :: "env \<Rightarrow> search_data \<Rightarrow> prim list eff" where
  "getSearchCids e data =
     (if categories_of data = [] then eff_ret []
      else if PStr ''all'' \<in> set (categories_of data)
      then eff_call Call_getCidsByPrivilege
             (categories_getCidsByPrivilege (sv e) ''categories:cid'' (uid_of data) ''read'')
      else
        eff_bind (eff_both (getWatchedCids e data) (getChildrenCids e data))
          (\<lambda>(watchedCids, childrenCids).
             eff_ret (uniq (filter truthy_prim
                              (watchedCids @ childrenCids @ categories_of data)))))"

definition getSearchUids :: "env \<Rightarrow> search_data \<Rightarrow> int list eff" where
  "getSearchUids e data =
     (if \<not> truthy_soa (postedBy data) then eff_ret []
      else
        (let names = (case postedBy data of
                        Some (StrArr ns) \<Rightarrow> ns
                      | Some (OneStr n) \<Rightarrow> [n]
                      | None \<Rightarrow> [])
         in eff_call (Call_getUidsByUsernames names) (user_getUidsByUsernames (sv e) names)))"


section \<open>\<^verbatim>\<open>searchInContent\<close>\<close>

text \<open>
  The match of \<^verbatim>\<open>/^in:topic-([\d]+) /\<close>: the matched text and the group of digits.
\<close>

definition matchInTopic :: "string \<Rightarrow> (string \<times> string) option" where
  "matchInTopic s =
     (if startsWith s ''in:topic-''
      then (let rest = drop 9 s;
                ds = takeWhile is_digit rest;
                after = dropWhile is_digit rest
            in if ds \<noteq> [] \<and> after \<noteq> [] \<and> hd after = CHR '' ''
               then Some (''in:topic-'' @ ds @ '' '', ds)
               else None)
      else None)"

text \<open>\<^verbatim>\<open>s.replace(pat, rep)\<close> with a string pattern: the first occurrence only.\<close>

fun replaceFirst :: "string \<Rightarrow> string \<Rightarrow> string \<Rightarrow> string" where
  "replaceFirst pat rep [] = (if pat = [] then rep else [])"
| "replaceFirst pat rep (c # cs) =
     (if startsWith (c # cs) pat then rep @ drop (length pat) (c # cs)
      else c # replaceFirst pat rep cs)"

text \<open>The inner function \<^verbatim>\<open>doSearch\<close>.\<close>

definition doSearch ::
  "env \<Rightarrow> search_data \<Rightarrow> prim list \<Rightarrow> int list \<Rightarrow> string \<Rightarrow> string list \<Rightarrow> jsid list eff" where
  "doSearch e data searchCids searchUids type searchIn' =
     (if (case searchIn data of None \<Rightarrow> False | Some d \<Rightarrow> d \<in> set searchIn')
      then
        eff_bind (eff_call (Call_indexQuery type)
                    (fire (on_query (hk e))
                       (QObject \<lparr>qp_index = type,
                                 qp_content = query data,
                                 qp_matchWords = (if truthy_str (matchWords data)
                                                  then the (matchWords data) else ''all''),
                                 qp_cid = searchCids,
                                 qp_uid = searchUids,
                                 qp_searchData = data,
                                 qp_ids = []\<rparr>)))
          (\<lambda>result. eff_ret (case result of QArray ids \<Rightarrow> ids | QObject ps \<Rightarrow> qp_ids ps))
      else eff_ret [])"

text \<open>Line 85: main-item ids, then direct post ids, falsy entries dropped.\<close>

definition mergeCandidates :: "jsid list \<Rightarrow> jsid list \<Rightarrow> jsid list" where
  "mergeCandidates mainPids pids = filter truthy_id (mainPids @ pids)"

text \<open>Line 104: the page size in effect.\<close>

definition effectiveItemsPerPage :: "search_data \<Rightarrow> int" where
  "effectiveItemsPerPage data =
     min (case itemsPerPage data of None \<Rightarrow> 10 | Some n \<Rightarrow> if n = 0 then 10 else n) 100"

text \<open>Line 109.\<close>

definition pageCountOf :: "jsid list \<Rightarrow> int \<Rightarrow> int" where
  "pageCountOf pids perPage = max 1 (ceil_div (int (length pids)) perPage)"

text \<open>Lines 112 to 115: the ids that go on to be hydrated.\<close>

definition pageSlice :: "search_data \<Rightarrow> jsid list \<Rightarrow> jsid list" where
  "pageSlice data pids =
     (case page data of
        None \<Rightarrow> pids
      | Some p \<Rightarrow>
          if p = 0 then pids
          else (let start = max 0 (p - 1) * effectiveItemsPerPage data
                in js_slice pids start (start + effectiveItemsPerPage data)))"

text \<open>Lines 68 to 81: where the candidate post ids and topic ids come from.\<close>

definition dispatch ::
  "env \<Rightarrow> search_data \<Rightarrow> prim list \<Rightarrow> int list \<Rightarrow> (jsid list \<times> jsid list) eff" where
  "dispatch e data searchCids searchUids =
     (case matchInTopic (case query data of None \<Rightarrow> [] | Some q \<Rightarrow> q) of
        Some (whole, tid') \<Rightarrow>
          (let cleanedTerm = replaceFirst whole [] (case query data of None \<Rightarrow> [] | Some q \<Rightarrow> q)
           in eff_bind (eff_call (Call_topicsSearch tid' cleanedTerm)
                          (topics_search (sv e) tid' cleanedTerm))
                (\<lambda>pids. eff_ret (pids, [])))
      | None \<Rightarrow>
          if searchIn data = Some ''bookmarks''
          then eff_bind (searchInBookmarks e data searchCids searchUids)
                 (\<lambda>pids. eff_ret (pids, []))
          else eff_both
                 (doSearch e data searchCids searchUids ''post'' [''posts'', ''titlesposts''])
                 (doSearch e data searchCids searchUids ''topic'' [''titles'', ''titlesposts'']))"

text \<open>
  Lines 95 to 121: the answer built from the final ids. The result object starts
  with the keys \<open>posts\<close>, \<open>matchCount\<close> and \<open>pageCount\<close>, is handed to the listeners of
  \<^verbatim>\<open>filter:search.contentGetResult\<close>, and last takes every key that is left in the
  metadata once \<open>pids\<close> and \<open>data\<close> are deleted.
\<close>

definition respond ::
  "env \<Rightarrow> search_data \<Rightarrow> jsid list \<Rightarrow> jsid list \<Rightarrow> jsid list \<Rightarrow> jsid list \<Rightarrow> metadata
     \<Rightarrow> response eff" where
  "respond e data mainPids pids tids allPids metadata' =
     (if returnIds data
      then
        (let mainPidToTid = zipObject mainPids tids;
             returnPids = filter (\<lambda>pid. pid \<in> set pids) allPids;
             returnTids = map mainPidToTid (filter (\<lambda>pid. pid \<in> set mainPids) allPids)
         in eff_ret (Ids returnPids returnTids))
      else
        (let perPage = effectiveItemsPerPage data;
             count = int (length (m_pids metadata'));
             pages = pageCountOf (m_pids metadata') perPage;
             shown = pageSlice data (m_pids metadata')
         in eff_bind (eff_call (Call_getPostSummaryByPids shown)
                        (posts_getPostSummaryByPids (sv e) shown (uid_of data)))
              (\<lambda>summaries.
                 eff_bind (eff_call (Call_fire ''filter:search.contentGetResult'')
                             (fire (on_contentGetResult (hk e))
                                [(''posts'', Summaries summaries),
                                 (''matchCount'', Plain (PNum count)),
                                 (''pageCount'', Plain (PNum pages))]))
                   (\<lambda>returnData.
                      eff_ret (Paged (object_assign returnData (m_extra metadata')))))))"

definition searchInContent :: "env \<Rightarrow> search_data \<Rightarrow> response eff" where
  "searchInContent e data0 =
     (let data = data0\<lparr>uid := Some (uid_of data0)\<rparr>
      in eff_bind (eff_both (getSearchCids e data) (getSearchUids e data))
           (\<lambda>(searchCids, searchUids).
              eff_bind (dispatch e data searchCids searchUids)
                (\<lambda>(pids, tids).
                   eff_bind (eff_call (Call_getMainPids tids) (topics_getMainPids (sv e) tids))
                     (\<lambda>mainPids.
                        eff_bind (eff_call (Call_privilegesFilter (mergeCandidates mainPids pids))
                                    (privileges_posts_filter (sv e) ''topics:read''
                                       (mergeCandidates mainPids pids) (uid_of data)))
                          (\<lambda>readable.
                             eff_bind (filterAndSort e readable data)
                               (\<lambda>allPids.
                                  eff_bind (eff_call (Call_fire ''filter:search.inContent'')
                                              (fire (on_inContent (hk e))
                                                 \<lparr>m_pids = allPids,
                                                  m_data = requestAfterFilterAndSort e readable data,
                                                  m_extra = []\<rparr>))
                                    (respond e (requestAfterFilterAndSort e readable data)
                                       mainPids pids tids allPids)))))))"


section \<open>\<^verbatim>\<open>search.search\<close>\<close>

text \<open>The answer with the \<^verbatim>\<open>time\<close> field the entry point adds.\<close>

record timed =
  body :: response
  time :: string

definition search :: "env \<Rightarrow> search_data \<Rightarrow> timed eff" where
  "search e data0 =
     (let data = data0\<lparr>sortBy := (if truthy_str (sortBy data0)
                                  then sortBy data0 else Some ''relevance'')\<rparr>
      in eff_bind
           (if searchIn data
                 \<in> set [Some ''posts'', Some ''titles'', Some ''titlesposts'', Some ''bookmarks'']
            then searchInContent e data
            else if searchIn data = Some ''users''
            then eff_call Call_userSearch (Foreign (user_search (sv e) data))
            else if searchIn data = Some ''categories''
            then eff_call Call_categoriesSearch (Foreign (categories_search (sv e) data))
            else if searchIn data = Some ''tags''
            then eff_call Call_searchAndLoadTags (Foreign (topics_searchAndLoadTags (sv e) data))
            else if truthy_str (searchIn data)
            then eff_call (Call_fire ''filter:search.searchIn'')
                   (fire (on_searchIn (hk e)) (HookParams data))
            else eff_throw UnknownSearchFilter)
           (\<lambda>result. eff_ret \<lparr>body = result, time = elapsed (sv e)\<rparr>))"


section \<open>A small installation for concrete runs\<close>

text \<open>
  A request with every field absent, and an installation without extensions whose
  stores hold four posts: post 1 is live in the live topic 10, post 2
  is soft-deleted, post 3 is live in the soft-deleted topic 20, and post 4 points to
  a topic that does not exist.
\<close>

definition blank_request :: search_data where
  "blank_request =
     \<lparr>query = None, searchIn = None, matchWords = None, categories = None,
      searchChildren = False, postedBy = None, sortBy = None, sortDirection = None,
      replies = None, repliesFilter = None, timeRange = None, timeFilter = None,
      hasTags = None, page = None, itemsPerPage = None, returnIds = False, uid = None\<rparr>"

definition demo_post :: "int \<Rightarrow> int \<Rightarrow> int \<Rightarrow> int \<Rightarrow> post_fields" where
  "demo_post i t ts d =
     \<lparr>f_pid = i, f_uid = 1, f_tid = t, f_timestamp = ts, f_deleted = d,
      f_upvotes = 0, f_downvotes = 0\<rparr>"

definition demo_topic :: "int \<Rightarrow> topic_data" where
  "demo_topic d =
     \<lparr>rt_cid = 1, rt_deleted = d, rt_postcount = 3, rt_title = ''a title'', rt_tags = None\<rparr>"

definition demo_stores :: stores where
  "demo_stores =
     \<lparr>post_store = (\<lambda>i. if i = 1 then Some (demo_post 1 10 100 0)
                         else if i = 2 then Some (demo_post 2 10 200 1)
                         else if i = 3 then Some (demo_post 3 20 300 0)
                         else if i = 4 then Some (demo_post 4 30 400 0)
                         else None),
      topic_store = (\<lambda>t. if t = 10 then Some (demo_topic 0)
                          else if t = 20 then Some (demo_topic 1)
                          else None),
      user_store = (\<lambda>u. None),
      category_store = (\<lambda>c fs. None),
      db_post = (\<lambda>i. if i = 1 then Some \<lparr>po_content = Some ''I have a cat'', po_tid = Some 10\<rparr>
                      else None),
      db_topic = (\<lambda>t. if t = 10 then Some \<lparr>to_title = Some ''pets''\<rparr> else None),
      bookmark_set = (\<lambda>u. [1])\<rparr>"

definition demo_services :: services where
  "demo_services =
     \<lparr>topics_search = (\<lambda>t q. [Some 1]),
      topics_getMainPids = (\<lambda>tids. map (\<lambda>t. None) tids),
      privileges_posts_filter = (\<lambda>priv ids u. ids),
      posts_filterPidsByCid = (\<lambda>ids cids. ids),
      posts_filterPidsByUid = (\<lambda>ids uids. ids),
      posts_getPostSummaryByPids = (\<lambda>ids u. map (\<lambda>i. \<lparr>s_pid = i, s_uid = u\<rparr>) ids),
      categories_getCidsByPrivilege = (\<lambda>s u p. []),
      categories_getChildrenCids = (\<lambda>c. []),
      privileges_categories_filterCids = (\<lambda>p cids u. cids),
      user_getWatchedCategories = (\<lambda>u. []),
      user_getUidsByUsernames = (\<lambda>ns. []),
      user_search = (\<lambda>d. []),
      categories_search = (\<lambda>d. []),
      topics_searchAndLoadTags = (\<lambda>d. []),
      utils_isNumber = (\<lambda>v. case v of Prim (PNum _) \<Rightarrow> True | _ \<Rightarrow> False),
      date_now = 1000000,
      elapsed = ''0.00''\<rparr>"

definition no_hooks :: hooks where
  "no_hooks =
     \<lparr>on_searchIn = [], on_query = [], on_inContent = [], on_contentGetResult = [],
      on_filterAndSort = []\<rparr>"

definition demo_env :: env where
  "demo_env = \<lparr>st = demo_stores, sv = demo_services, hk = no_hooks\<rparr>"

definition twenty_five_ids :: "jsid list" where
  "twenty_five_ids =
     map Some [1, 2, 3, 4, 5, 6, 7, 8, 9, 10, 11, 12, 13, 14, 15, 16, 17, 18, 19, 20,
               21, 22, 23, 24, 25]"

definition eleven_ids :: "jsid list" where
  "eleven_ids = map Some [1, 2, 3, 4, 5, 6, 7, 8, 9, 10, 11]"


text \<open>Enriched posts of one live topic, for runs of the filters and of the sort.\<close>

definition demo_ipost :: "int \<Rightarrow> int \<Rightarrow> int \<Rightarrow> string list \<Rightarrow> ipost" where
  "demo_ipost i ts pc tags =
     \<lparr>p_pid = i, p_uid = 1, p_tid = 10, p_timestamp = ts, p_deleted = 0,
      p_upvotes = 0, p_downvotes = 0,
      p_topic = Some \<lparr>t_cid = 1, t_deleted = 0, t_postcount = pc, t_title = ''a title'',
                       t_tags = Some tags, t_category = None\<rparr>,
      p_category = None, p_user = None\<rparr>"

definition demo_posts3 :: "ipost list" where
  "demo_posts3 = [demo_ipost 1 300 5 [''a'', ''b'', ''c''], demo_ipost 2 100 4 [''a''],
                  demo_ipost 3 200 6 [''a'', ''b'']]"

text \<open>
  The calls that reach a search backend: a query of the post or topic index, the
  per-topic search, and a batch read of the bookmark set.
\<close>

definition is_backend_call :: "call \<Rightarrow> bool" where
  "is_backend_call c =
     (case c of
        Call_indexQuery _ \<Rightarrow> True
      | Call_topicsSearch _ _ \<Rightarrow> True
      | Call_bookmarkBatch _ _ \<Rightarrow> True
      | _ \<Rightarrow> False)"

definition backend_calls :: "'a eff \<Rightarrow> call list" where
  "backend_calls m = filter is_backend_call (snd m)"

text \<open>
  The tokens in the words of the specification, "whitespace tokens": the maximal runs
  of characters that are not white space. The module does not compute them; they are
  here to be compared with the pieces of \<^verbatim>\<open>query.split(' ')\<close>.
\<close>

fun split_where :: "(char \<Rightarrow> bool) \<Rightarrow> string \<Rightarrow> string list" where
  "split_where sep [] = [[]]"
| "split_where sep (x # xs) =
     (if sep x then [] # split_where sep xs
      else (case split_where sep xs of [] \<Rightarrow> [[x]] | w # ws \<Rightarrow> (x # w) # ws))"

definition spec_whitespace_tokens :: "string \<Rightarrow> string list" where
  "spec_whitespace_tokens s = filter (\<lambda>w. w \<noteq> []) (split_where is_space s)"

text \<open>The value of a key of the paged answer a run ends with, if it ends with one.\<close>

definition answer_field :: "response eff \<Rightarrow> string \<Rightarrow> rval option" where
  "answer_field m k = (case fst m of Inr (Paged r) \<Rightarrow> map_of r k | _ \<Rightarrow> None)"

text \<open>An installation with one listener, which sets \<open>matchCount\<close> in the result to 0.\<close>

definition listener_env :: env where
  "listener_env =
     demo_env\<lparr>hk := no_hooks\<lparr>on_contentGetResult := [obj_set ''matchCount'' (Plain (PNum 0))]\<rparr>\<rparr>"

section \<open>Pagination\<close>

lemma ceil_div_ceiling: "ceil_div n k = \<lceil>real_of_int n / real_of_int k\<rceil>"
proof -
  have "- (real_of_int n / real_of_int k) = real_of_int (- n) / real_of_int k"
    by simp
  then have "\<lfloor>- (real_of_int n / real_of_int k)\<rfloor> = (- n) div k"
    by (simp only: floor_divide_of_int_eq)
  then show ?thesis
    unfolding ceil_div_def ceiling_def by simp
qed

lemma js_slice_window:
  assumes "0 \<le> a" and "0 \<le> k"
  shows "js_slice xs a (a + k) = take (nat k) (drop (nat a) xs)"
proof (cases "a + k \<le> int (length xs)")
  case True
  with assms have "nat (a + k - a) = nat k" by simp
  with True assms show ?thesis
    unfolding js_slice_def Let_def by (simp add: min_def)
next
  case False
  show ?thesis
  proof (cases "a \<le> int (length xs)")
    case True
    with False assms have "length (drop (nat a) xs) \<le> nat k" by simp
    with True False assms show ?thesis
      unfolding js_slice_def Let_def by (simp add: min_def nat_diff_distrib)
  next
    case False
    with assms show ?thesis
      unfolding js_slice_def Let_def by (simp add: min_def)
  qed
qed

lemma effectiveItemsPerPage_nonzero: "effectiveItemsPerPage data \<noteq> 0"
  by (auto simp: effectiveItemsPerPage_def min_def split: option.splits)

text \<open>
  C5, as the code has it. The page size in effect is \<^verbatim>\<open>Math.min(itemsPerPage || 10, 100)\<close>:
  it never exceeds 100, a request of 500 becomes 100, an absent request (and a request
  of 0) becomes 10, and a request of at least 1 gives a value in the interval from 1
  to 100. There is no lower clamp: a negative request is the page size in effect.
\<close>

theorem effectiveItemsPerPage_upper_clamp:
  "effectiveItemsPerPage data \<le> 100
   \<and> (itemsPerPage data = Some 500 \<longrightarrow> effectiveItemsPerPage data = 100)
   \<and> (itemsPerPage data = None \<longrightarrow> effectiveItemsPerPage data = 10)
   \<and> (itemsPerPage data = Some 0 \<longrightarrow> effectiveItemsPerPage data = 10)
   \<and> (\<forall>n. itemsPerPage data = Some n \<and> 1 \<le> n \<longrightarrow>
         1 \<le> effectiveItemsPerPage data \<and> effectiveItemsPerPage data = min n 100)
   \<and> (\<forall>n. itemsPerPage data = Some n \<and> n < 0 \<longrightarrow> effectiveItemsPerPage data = n)"
  by (auto simp: effectiveItemsPerPage_def split: option.splits)

theorem effectiveItemsPerPage_upper_clamp_witness:
  "effectiveItemsPerPage (blank_request\<lparr>itemsPerPage := Some 500\<rparr>) = 100
   \<and> effectiveItemsPerPage blank_request = 10
   \<and> effectiveItemsPerPage (blank_request\<lparr>itemsPerPage := Some 7\<rparr>) = 7
   \<and> effectiveItemsPerPage (blank_request\<lparr>itemsPerPage := Some (- 3)\<rparr>) = - 3"
  using effectiveItemsPerPage_upper_clamp [of "blank_request\<lparr>itemsPerPage := Some 500\<rparr>"]
        effectiveItemsPerPage_upper_clamp [of blank_request]
        effectiveItemsPerPage_upper_clamp [of "blank_request\<lparr>itemsPerPage := Some 7\<rparr>"]
        effectiveItemsPerPage_upper_clamp [of "blank_request\<lparr>itemsPerPage := Some (- 3)\<rparr>"]
  by (simp add: blank_request_def)

text \<open>A request of \<open>-5\<close> items per page is used as it is, below 1.\<close>

theorem effectiveItemsPerPage_negative_request:
  "effectiveItemsPerPage (blank_request\<lparr>itemsPerPage := Some (- 5)\<rparr>) = - 5
   \<and> \<not> 1 \<le> effectiveItemsPerPage (blank_request\<lparr>itemsPerPage := Some (- 5)\<rparr>)"
  by (simp add: effectiveItemsPerPage_def blank_request_def)

lemma map_of_obj_set: "map_of (obj_set k v t) = (map_of t)(k \<mapsto> v)"
  by (induction t) (auto simp: fun_eq_iff)

lemma map_of_object_assign:
  "k \<notin> fst ` set source \<Longrightarrow> map_of (object_assign target source) k = map_of target k"
  unfolding object_assign_def
  by (induction source arbitrary: target) (auto simp: map_of_obj_set)

lemma respond_paged:
  assumes "\<not> returnIds data" and "on_contentGetResult (hk e) = []"
  shows "respond e data mainPids pids tids allPids md =
           (Inr (Paged (object_assign
                   [(''posts'', Summaries (posts_getPostSummaryByPids (sv e)
                                             (pageSlice data (m_pids md)) (uid_of data))),
                    (''matchCount'', Plain (PNum (int (length (m_pids md))))),
                    (''pageCount'', Plain (PNum (pageCountOf (m_pids md)
                                                   (effectiveItemsPerPage data))))]
                   (m_extra md))),
            [Call_getPostSummaryByPids (pageSlice data (m_pids md)),
             Call_fire ''filter:search.contentGetResult''])"
  using assms
  by (simp add: respond_def Let_def eff_bind_def eff_call_def eff_ret_def fire_def)

lemma pageSlice_regular:
  assumes "page data = Some p" and "1 \<le> p"
  shows "pageSlice data ids =
           js_slice ids ((p - 1) * effectiveItemsPerPage data)
             ((p - 1) * effectiveItemsPerPage data + effectiveItemsPerPage data)"
  using assms by (simp add: pageSlice_def Let_def max_def)

text \<open>
  C6, as the code has it. For every final id list (the \<open>pids\<close> of the metadata), in
  the paged answer, when no listener of \<^verbatim>\<open>filter:search.contentGetResult\<close> is registered
  and the metadata carries no extension field named \<open>posts\<close>, \<open>matchCount\<close> or
  \<open>pageCount\<close>: \<open>matchCount\<close> is the length of the list and \<open>pageCount\<close> is
  \<open>max 1 \<lceil>matchCount / itemsPerPage\<rceil>\<close> for the page size in effect; and for a page
  number \<open>p\<close> of at least 1 the ids handed to the hydration, whose summaries are the
  \<open>posts\<close> of the answer, are \<^verbatim>\<open>slice((p - 1) * itemsPerPage, (p - 1) * itemsPerPage + itemsPerPage)\<close>
  of the list, which for a page size of at least 1 is \<open>itemsPerPage\<close> elements from that
  offset on.
\<close>

theorem respond_counts_and_slices:
  assumes "\<not> returnIds data" and "on_contentGetResult (hk e) = []"
    and "''posts'' \<notin> fst ` set (m_extra md)"
    and "''matchCount'' \<notin> fst ` set (m_extra md)"
    and "''pageCount'' \<notin> fst ` set (m_extra md)"
  shows "\<exists>r log. respond e data mainPids pids tids allPids md = (Inr (Paged r), log)
     \<and> map_of r ''matchCount'' = Some (Plain (PNum (int (length (m_pids md)))))
     \<and> map_of r ''pageCount'' =
         Some (Plain (PNum (max 1 \<lceil>real (length (m_pids md))
                                      / real_of_int (effectiveItemsPerPage data)\<rceil>)))
     \<and> (\<forall>p. page data = Some p \<and> 1 \<le> p \<longrightarrow>
          (let perPage = effectiveItemsPerPage data;
               start = (p - 1) * perPage;
               shown = js_slice (m_pids md) start (start + perPage)
           in map_of r ''posts''
                = Some (Summaries (posts_getPostSummaryByPids (sv e) shown (uid_of data)))
              \<and> Call_getPostSummaryByPids shown \<in> set log
              \<and> (1 \<le> perPage \<longrightarrow> shown = take (nat perPage) (drop (nat start) (m_pids md)))))"
proof -
  have pc: "pageCountOf (m_pids md) (effectiveItemsPerPage data)
            = max 1 \<lceil>real (length (m_pids md)) / real_of_int (effectiveItemsPerPage data)\<rceil>"
    unfolding pageCountOf_def by (simp add: ceil_div_ceiling)
  have win: "js_slice (m_pids md) ((p - 1) * k) ((p - 1) * k + k)
             = take (nat k) (drop (nat ((p - 1) * k)) (m_pids md))"
    if "1 \<le> p" "1 \<le> k" for p k :: int
    using that by (intro js_slice_window) simp_all
  let ?shown = "pageSlice data (m_pids md)"
  let ?base = "[(''posts'', Summaries (posts_getPostSummaryByPids (sv e) ?shown (uid_of data))),
                (''matchCount'', Plain (PNum (int (length (m_pids md))))),
                (''pageCount'', Plain (PNum (pageCountOf (m_pids md)
                                               (effectiveItemsPerPage data))))]"
  let ?log = "[Call_getPostSummaryByPids ?shown, Call_fire ''filter:search.contentGetResult'']"
  define r where "r = object_assign ?base (m_extra md)"
  have run: "respond e data mainPids pids tids allPids md = (Inr (Paged r), ?log)"
    unfolding r_def by (rule respond_paged [OF assms(1,2)])
  have f1: "map_of r ''posts''
              = Some (Summaries (posts_getPostSummaryByPids (sv e) ?shown (uid_of data)))"
    unfolding r_def using assms(3) by (simp add: map_of_object_assign)
  have f2: "map_of r ''matchCount'' = Some (Plain (PNum (int (length (m_pids md)))))"
    unfolding r_def using assms(4) by (simp add: map_of_object_assign)
  have "map_of r ''pageCount''
              = Some (Plain (PNum (pageCountOf (m_pids md) (effectiveItemsPerPage data))))"
    unfolding r_def using assms(5) by (simp add: map_of_object_assign)
  then have f3: "map_of r ''pageCount'' =
         Some (Plain (PNum (max 1 \<lceil>real (length (m_pids md))
                                      / real_of_int (effectiveItemsPerPage data)\<rceil>)))"
    by (simp only: pc)
  have pagewise: "(let perPage = effectiveItemsPerPage data;
               start = (p - 1) * perPage;
               shown = js_slice (m_pids md) start (start + perPage)
           in map_of r ''posts''
                = Some (Summaries (posts_getPostSummaryByPids (sv e) shown (uid_of data)))
              \<and> Call_getPostSummaryByPids shown \<in> set ?log
              \<and> (1 \<le> perPage \<longrightarrow> shown = take (nat perPage) (drop (nat start) (m_pids md))))"
    if "page data = Some p \<and> 1 \<le> p" for p
  proof -
    from that have pg: "page data = Some p" and p1: "1 \<le> p" by simp_all
    show ?thesis
      using f1 p1 by (simp add: Let_def pageSlice_regular [OF pg p1] win)
  qed
  show ?thesis
    using run f2 f3 pagewise by blast
qed

text \<open>
  Page 2 of 25 matches, ten to a page: three pages, and the ids at offsets 10 to 19.
  Page 3 of the same, four to a page: seven pages, and the ids at offsets 8 to 11.
\<close>

theorem respond_counts_and_slices_witness:
  "(\<exists>r log. respond demo_env (blank_request\<lparr>page := Some 2, itemsPerPage := Some 10\<rparr>)
              [] twenty_five_ids [] twenty_five_ids
              \<lparr>m_pids = twenty_five_ids, m_data = blank_request, m_extra = []\<rparr>
            = (Inr (Paged r), log)
     \<and> map_of r ''matchCount'' = Some (Plain (PNum 25))
     \<and> map_of r ''pageCount'' = Some (Plain (PNum 3))
     \<and> map_of r ''posts''
         = Some (Summaries (map (\<lambda>i. \<lparr>s_pid = Some i, s_uid = 0\<rparr>)
                              [11, 12, 13, 14, 15, 16, 17, 18, 19, 20])))
   \<and> (\<exists>r log. respond demo_env (blank_request\<lparr>page := Some 3, itemsPerPage := Some 4\<rparr>)
              [] twenty_five_ids [] twenty_five_ids
              \<lparr>m_pids = twenty_five_ids, m_data = blank_request, m_extra = []\<rparr>
            = (Inr (Paged r), log)
     \<and> map_of r ''matchCount'' = Some (Plain (PNum 25))
     \<and> map_of r ''pageCount'' = Some (Plain (PNum 7))
     \<and> map_of r ''posts''
         = Some (Summaries (map (\<lambda>i. \<lparr>s_pid = Some i, s_uid = 0\<rparr>) [9, 10, 11, 12])))"
proof -
  let ?md = "\<lparr>m_pids = twenty_five_ids, m_data = blank_request, m_extra = []\<rparr>"
  have h2: "on_contentGetResult (hk demo_env) = []" by (simp add: demo_env_def no_hooks_def)
  have h3: "''posts'' \<notin> fst ` set (m_extra ?md)" "''matchCount'' \<notin> fst ` set (m_extra ?md)"
    "''pageCount'' \<notin> fst ` set (m_extra ?md)" by simp_all
  have len: "length twenty_five_ids = 25" by (simp add: twenty_five_ids_def)
  have inst: "\<exists>r log. respond demo_env (blank_request\<lparr>page := Some p, itemsPerPage := Some k\<rparr>)
              [] twenty_five_ids [] twenty_five_ids ?md = (Inr (Paged r), log)
     \<and> map_of r ''matchCount'' = Some (Plain (PNum 25))
     \<and> map_of r ''pageCount'' = Some (Plain (PNum (max 1 \<lceil>25 / real_of_int k\<rceil>)))
     \<and> map_of r ''posts''
         = Some (Summaries (map (\<lambda>i. \<lparr>s_pid = i, s_uid = 0\<rparr>)
                              (js_slice twenty_five_ids ((p - 1) * k) ((p - 1) * k + k))))"
    if "1 \<le> p" "1 \<le> k" "k \<le> 100" for p k
  proof -
    let ?d = "blank_request\<lparr>page := Some p, itemsPerPage := Some k\<rparr>"
    have h1: "\<not> returnIds ?d" by (simp add: blank_request_def)
    have pp: "effectiveItemsPerPage ?d = k" using that by (simp add: effectiveItemsPerPage_def)
    have pg: "page ?d = Some p" by simp
    have u: "uid_of ?d = 0" by (simp add: uid_of_def blank_request_def)
    from respond_counts_and_slices [OF h1 h2 h3, of "[]" twenty_five_ids "[]" twenty_five_ids]
    obtain r log where
      run: "respond demo_env ?d [] twenty_five_ids [] twenty_five_ids ?md = (Inr (Paged r), log)"
      and mc: "map_of r ''matchCount'' = Some (Plain (PNum (int (length (m_pids ?md)))))"
      and pc: "map_of r ''pageCount'' =
         Some (Plain (PNum (max 1 \<lceil>real (length (m_pids ?md))
                                      / real_of_int (effectiveItemsPerPage ?d)\<rceil>)))"
      and sl: "\<forall>p'. page ?d = Some p' \<and> 1 \<le> p' \<longrightarrow>
          (let perPage = effectiveItemsPerPage ?d;
               start = (p' - 1) * perPage;
               shown = js_slice (m_pids ?md) start (start + perPage)
           in map_of r ''posts''
                = Some (Summaries (posts_getPostSummaryByPids (sv demo_env) shown (uid_of ?d)))
              \<and> Call_getPostSummaryByPids shown \<in> set log
              \<and> (1 \<le> perPage \<longrightarrow> shown = take (nat perPage) (drop (nat start) (m_pids ?md))))"
      by blast
    have "map_of r ''posts''
         = Some (Summaries (map (\<lambda>i. \<lparr>s_pid = i, s_uid = 0\<rparr>)
                              (js_slice twenty_five_ids ((p - 1) * k) ((p - 1) * k + k))))"
      using sl [rule_format, of p] pg that(1)
      by (simp add: pp u Let_def demo_env_def demo_services_def)
    with run mc pc show ?thesis by (simp add: len pp)
  qed
  have s1: "js_slice twenty_five_ids ((2 - 1) * 10) ((2 - 1) * 10 + 10)
            = map Some [11, 12, 13, 14, 15, 16, 17, 18, 19, 20]"
    by (simp add: js_slice_def twenty_five_ids_def)
  have s2: "js_slice twenty_five_ids ((3 - 1) * 4) ((3 - 1) * 4 + 4) = map Some [9, 10, 11, 12]"
    by (simp add: js_slice_def twenty_five_ids_def)
  have c1: "max 1 \<lceil>25 / real_of_int 10\<rceil> = (3::int)" by simp
  have c2: "max 1 \<lceil>25 / real_of_int 4\<rceil> = (7::int)" by simp
  from inst [of 2 10] inst [of 3 4] show ?thesis
    unfolding s1 s2 c1 c2 by (simp add: o_def)
qed

text \<open>
  Four runs on 25 matches. An extension field \<open>matchCount = 999\<close> in the metadata is
  the \<open>matchCount\<close> of the answer. A listener that sets \<open>matchCount\<close> to 0 has the last
  word too. Page \<open>-1\<close> hydrates the first ten ids, which is neither empty nor
  \<^verbatim>\<open>slice(-20, -10)\<close>. With \<open>itemsPerPage = -5\<close>, page 1 hydrates the first twenty ids,
  although no offset lies between 0 and \<open>-5\<close>.
\<close>

theorem respond_overwritten_and_low_pages:
  "answer_field
     (respond demo_env (blank_request\<lparr>page := Some 1\<rparr>) [] twenty_five_ids [] twenty_five_ids
        \<lparr>m_pids = twenty_five_ids, m_data = blank_request,
           m_extra = [(''matchCount'', Plain (PNum 999))]\<rparr>) ''matchCount''
     = Some (Plain (PNum 999))
   \<and> answer_field
       (respond listener_env (blank_request\<lparr>page := Some 1\<rparr>) [] twenty_five_ids []
          twenty_five_ids
          \<lparr>m_pids = twenty_five_ids, m_data = blank_request, m_extra = []\<rparr>) ''matchCount''
     = Some (Plain (PNum 0))
   \<and> length twenty_five_ids = 25
   \<and> pageSlice (blank_request\<lparr>page := Some (- 1)\<rparr>) twenty_five_ids
     = map Some [1, 2, 3, 4, 5, 6, 7, 8, 9, 10]
   \<and> (- 1 - 1) * effectiveItemsPerPage (blank_request\<lparr>page := Some (- 1)\<rparr>) = - 20
   \<and> js_slice twenty_five_ids (- 20) (- 20 + 10) = map Some [6, 7, 8, 9, 10, 11, 12, 13, 14, 15]
   \<and> effectiveItemsPerPage (blank_request\<lparr>page := Some 1, itemsPerPage := Some (- 5)\<rparr>) = - 5
   \<and> pageSlice (blank_request\<lparr>page := Some 1, itemsPerPage := Some (- 5)\<rparr>) twenty_five_ids
     = map Some [1, 2, 3, 4, 5, 6, 7, 8, 9, 10, 11, 12, 13, 14, 15, 16, 17, 18, 19, 20]"
proof -
  have a: "answer_field
     (respond demo_env (blank_request\<lparr>page := Some 1\<rparr>) [] twenty_five_ids [] twenty_five_ids
        \<lparr>m_pids = twenty_five_ids, m_data = blank_request,
           m_extra = [(''matchCount'', Plain (PNum 999))]\<rparr>) ''matchCount''
     = Some (Plain (PNum 999))"
    by (simp add: answer_field_def respond_def Let_def eff_bind_def eff_call_def eff_ret_def
          fire_def demo_env_def no_hooks_def blank_request_def object_assign_def)
  have b: "answer_field
       (respond listener_env (blank_request\<lparr>page := Some 1\<rparr>) [] twenty_five_ids []
          twenty_five_ids
          \<lparr>m_pids = twenty_five_ids, m_data = blank_request, m_extra = []\<rparr>) ''matchCount''
     = Some (Plain (PNum 0))"
    by (simp add: answer_field_def respond_def Let_def eff_bind_def eff_call_def eff_ret_def
          fire_def listener_env_def demo_env_def no_hooks_def blank_request_def
          object_assign_def)
  have c: "length twenty_five_ids = 25" by (simp add: twenty_five_ids_def)
  have d: "pageSlice (blank_request\<lparr>page := Some (- 1)\<rparr>) twenty_five_ids
            = map Some [1, 2, 3, 4, 5, 6, 7, 8, 9, 10]"
    by (simp add: pageSlice_def blank_request_def effectiveItemsPerPage_def js_slice_def
          twenty_five_ids_def)
  have e: "(- 1 - 1) * effectiveItemsPerPage (blank_request\<lparr>page := Some (- 1)\<rparr>) = - 20"
    by (simp add: blank_request_def effectiveItemsPerPage_def)
  have f: "js_slice twenty_five_ids (- 20) (- 20 + 10)
            = map Some [6, 7, 8, 9, 10, 11, 12, 13, 14, 15]"
    by (simp add: js_slice_def twenty_five_ids_def)
  have g: "effectiveItemsPerPage (blank_request\<lparr>page := Some 1, itemsPerPage := Some (- 5)\<rparr>) = - 5"
    by (simp add: effectiveItemsPerPage_def)
  have h: "pageSlice (blank_request\<lparr>page := Some 1, itemsPerPage := Some (- 5)\<rparr>) twenty_five_ids
     = map Some [1, 2, 3, 4, 5, 6, 7, 8, 9, 10, 11, 12, 13, 14, 15, 16, 17, 18, 19, 20]"
    by (simp add: pageSlice_def effectiveItemsPerPage_def js_slice_def twenty_five_ids_def)
  from a b c d e f g h show ?thesis by (intro conjI)
qed

text \<open>
  C10, as the code has it. A page value that is negative or 1 starts the slice at
  offset 0, so the answer is the one of page 1. The page value 0 is falsy: the test
  \<^verbatim>\<open>if (data.page)\<close> takes it for an absent page, and the whole list is hydrated.
\<close>

theorem pageSlice_low_pages:
  "(\<forall>p. page data = Some p \<and> p \<le> 1 \<and> p \<noteq> 0 \<longrightarrow>
       pageSlice data ids = js_slice ids 0 (effectiveItemsPerPage data)
     \<and> pageSlice data ids = pageSlice (data\<lparr>page := Some 1\<rparr>) ids
     \<and> respond e data mainPids pids tids allPids md
        = respond e (data\<lparr>page := Some 1\<rparr>) mainPids pids tids allPids md)
   \<and> (page data = Some 0 \<longrightarrow> pageSlice data ids = ids)"
proof -
  have ipp: "effectiveItemsPerPage (data\<lparr>page := Some 1\<rparr>) = effectiveItemsPerPage data"
    by (simp add: effectiveItemsPerPage_def)
  have first: "pageSlice data xs = js_slice xs 0 (effectiveItemsPerPage data)"
    if "page data = Some p" "p \<le> 1" "p \<noteq> 0" for p xs
  proof -
    from that have "max 0 (p - 1) = 0" by simp
    with that show ?thesis by (simp add: pageSlice_def Let_def)
  qed
  have one: "pageSlice (data\<lparr>page := Some 1\<rparr>) xs = js_slice xs 0 (effectiveItemsPerPage data)" for xs
    by (simp add: pageSlice_def Let_def ipp)
  have resp: "respond e data mainPids pids tids allPids md
        = respond e (data\<lparr>page := Some 1\<rparr>) mainPids pids tids allPids md"
    if "page data = Some p" "p \<le> 1" "p \<noteq> 0" for p
    using first [OF that] one by (simp add: respond_def ipp uid_of_def)
  show ?thesis
    using first one resp by (auto simp: pageSlice_def)
qed

theorem pageSlice_low_pages_witness:
  "pageSlice (blank_request\<lparr>page := Some (- 3)\<rparr>) eleven_ids
     = map Some [1, 2, 3, 4, 5, 6, 7, 8, 9, 10]
   \<and> pageSlice (blank_request\<lparr>page := Some (- 3)\<rparr>) eleven_ids
     = pageSlice (blank_request\<lparr>page := Some (- 3)\<rparr>\<lparr>page := Some 1\<rparr>) eleven_ids"
proof -
  let ?d = "blank_request\<lparr>page := Some (- 3)\<rparr>"
  have pg: "page ?d = Some (- 3) \<and> (- 3 :: int) \<le> 1 \<and> (- 3 :: int) \<noteq> 0" by simp
  have "pageSlice ?d eleven_ids = js_slice eleven_ids 0 (effectiveItemsPerPage ?d)
        \<and> pageSlice ?d eleven_ids = pageSlice (?d\<lparr>page := Some 1\<rparr>) eleven_ids"
    using pg pageSlice_low_pages [where data = ?d and ids = eleven_ids and e = demo_env
                    and mainPids = "[]" and pids = "[]" and tids = "[]" and allPids = "[]"
                    and md = "\<lparr>m_pids = [], m_data = blank_request, m_extra = []\<rparr>"]
    by blast
  moreover have "js_slice eleven_ids 0 (effectiveItemsPerPage ?d)
                 = map Some [1, 2, 3, 4, 5, 6, 7, 8, 9, 10]"
    by (simp add: blank_request_def effectiveItemsPerPage_def js_slice_def eleven_ids_def)
  ultimately show ?thesis by (elim conjE, intro conjI) (erule trans, assumption+)
qed

text \<open>Eleven matches, ten to a page: page 0 hydrates all eleven, page 1 the first ten.\<close>

theorem pageSlice_page_zero:
  "pageSlice (blank_request\<lparr>page := Some 0\<rparr>) eleven_ids = eleven_ids
   \<and> pageSlice (blank_request\<lparr>page := Some 1\<rparr>) eleven_ids
     = map Some [1, 2, 3, 4, 5, 6, 7, 8, 9, 10]
   \<and> pageSlice (blank_request\<lparr>page := Some 0\<rparr>) eleven_ids
     \<noteq> pageSlice (blank_request\<lparr>page := Some 1\<rparr>) eleven_ids"
  by (simp add: pageSlice_def blank_request_def effectiveItemsPerPage_def js_slice_def
        eleven_ids_def)

section \<open>Order preservation of the merge and of the filters\<close>

lemma filterByPostcount_subseq:
  "filterByPostcount items pc rf = Inr ys \<Longrightarrow> subseq ys items"
  by (auto simp: filterByPostcount_def Let_def split: if_splits)

lemma filterByTimerange_subseq: "subseq (filterByTimerange now items tr tf) items"
  by (simp add: filterByTimerange_def Let_def)

lemma filterByTags_subseq: "subseq (filterByTags items ht) items"
  by (simp add: filterByTags_def split: option.splits str_or_arr.splits)

lemma applyFilters_subseq:
  assumes "applyFilters now items data = Inr ys"
  shows "subseq ys items"
proof -
  from assms obtain ps where
    ps: "filterByPostcount items (replies data) (repliesFilter data) = Inr ps"
    and ys: "ys = filterByTags (filterByTimerange now ps (timeRange data) (timeFilter data)) (hasTags data)"
    by (auto simp: applyFilters_def split: sum.splits)
  have "subseq ys (filterByTimerange now ps (timeRange data) (timeFilter data))"
    unfolding ys by (rule filterByTags_subseq)
  also have "subseq \<dots> ps" by (rule filterByTimerange_subseq)
  also have "subseq ps items" using ps by (rule filterByPostcount_subseq)
  finally show ?thesis .
qed

lemma applyFilters_total:
  assumes "list_all (\<lambda>p. p_topic p \<noteq> None) items"
  shows "\<exists>ys. applyFilters now items data = Inr ys"
proof -
  from assms have "\<not> list_ex (\<lambda>post. p_topic post = None) items"
    by (simp add: list_all_iff list_ex_iff)
  then show ?thesis
    by (simp add: applyFilters_def filterByPostcount_def Let_def)
qed

text \<open>
  C4. The merged candidate list is the truthy main-item ids, in their order, followed
  by the truthy direct post ids, in theirs. Each of the three filters returns a
  subsequence of its input (the reply-count filter whenever it returns at all: it
  throws on a post without topic), so what survives the three filters one after the
  other is a subsequence of the input; on posts that all carry their topic, as the
  hydration delivers them, the filters do return.
\<close>

theorem merge_and_filters_keep_order:
  "mergeCandidates mainPids pids = filter truthy_id mainPids @ filter truthy_id pids
   \<and> list_all truthy_id (mergeCandidates mainPids pids)
   \<and> (\<forall>ys. filterByPostcount items pc rf = Inr ys \<longrightarrow> subseq ys items)
   \<and> subseq (filterByTimerange now items tr tf) items
   \<and> subseq (filterByTags items ht) items
   \<and> (\<forall>ys. applyFilters now items data = Inr ys \<longrightarrow> subseq ys items)
   \<and> (list_all (\<lambda>p. p_topic p \<noteq> None) items \<longrightarrow> (\<exists>ys. applyFilters now items data = Inr ys))"
  using filterByPostcount_subseq filterByTimerange_subseq filterByTags_subseq
    applyFilters_subseq applyFilters_total
  by (simp add: mergeCandidates_def list_all_iff) blast

lemma applyFilters_demo:
  "applyFilters 1000000 demo_posts3
      (blank_request\<lparr>replies := Some ''5'', repliesFilter := Some ''atleast'',
                      hasTags := Some (StrArr [''a'', ''b''])\<rparr>)
    = Inr [demo_ipost 1 300 5 [''a'', ''b'', ''c''], demo_ipost 3 200 6 [''a'', ''b'']]"
  by (simp add: applyFilters_def filterByPostcount_def filterByTimerange_def filterByTags_def
        demo_posts3_def demo_ipost_def blank_request_def parseInt10_def truthy_str_def is_space_def
        is_digit_def digit_val_def Let_def)

text \<open>
  Three posts with reply counts 5, 4, 6 and tags abc, a, ab; at least 5 replies and
  the tags a and b keep the first and the third, in that order.
\<close>

theorem merge_and_filters_keep_order_witness:
  "mergeCandidates [Some 1, None, Some 3] [Some 0, Some 7] = [Some 1, Some 3, Some 7]
   \<and> subseq [demo_ipost 1 300 5 [''a'', ''b'', ''c''], demo_ipost 3 200 6 [''a'', ''b'']] demo_posts3"
proof -
  let ?d = "blank_request\<lparr>replies := Some ''5'', repliesFilter := Some ''atleast'',
                      hasTags := Some (StrArr [''a'', ''b''])\<rparr>"
  note inst = merge_and_filters_keep_order
                [of "[Some 1, None, Some 3]" "[Some 0, Some 7]" demo_posts3 None None
                    1000000 None None None ?d]
  have "mergeCandidates [Some 1, None, Some 3] [Some 0, Some 7] = [Some 1, Some 3, Some 7]"
    using inst by (simp add: truthy_id_def)
  moreover have "subseq [demo_ipost 1 300 5 [''a'', ''b'', ''c''], demo_ipost 3 200 6 [''a'', ''b'']] demo_posts3"
    using inst applyFilters_demo by blast
  ultimately show ?thesis by simp
qed


section \<open>Sorting by timestamp\<close>

lemma mset_sort_insert: "mset (sort_insert cmp x xs) = add_mset x (mset xs)"
  by (induction xs) simp_all

lemma mset_js_sort: "mset (js_sort cmp xs) = mset xs"
  by (induction xs) (simp_all add: mset_sort_insert)

lemma set_sort_insert: "set (sort_insert cmp x xs) = insert x (set xs)"
  using mset_sort_insert [of cmp x xs, THEN arg_cong, of set_mset] by simp

text \<open>A comparator that orders by an integer key.\<close>

lemma sorted_sort_insert_key:
  assumes cmp: "\<And>a b. (cmp_val (cmp a b) \<le> 0) = (key a \<le> (key b :: int))"
    and "sorted_wrt (\<lambda>a b. key a \<le> key b) xs"
  shows "sorted_wrt (\<lambda>a b. key a \<le> key b) (sort_insert cmp x xs)"
  using assms(2)
proof (induction xs)
  case Nil
  then show ?case by simp
next
  case (Cons y ys)
  show ?case
  proof (cases "key x \<le> key y")
    case True
    with Cons.prems show ?thesis by (auto simp: cmp)
  next
    case False
    with Cons show ?thesis by (auto simp: cmp set_sort_insert)
  qed
qed

lemma sorted_js_sort_key:
  assumes "\<And>a b. (cmp_val (cmp a b) \<le> 0) = (key a \<le> (key b :: int))"
  shows "sorted_wrt (\<lambda>a b. key a \<le> key b) (js_sort cmp xs)"
  by (induction xs) (simp_all add: sorted_sort_insert_key [OF assms])

lemma post_prop_timestamp: "post_prop ''timestamp'' p = Prim (PNum (p_timestamp p))"
  by (simp add: post_prop_def)

lemma sortPosts_timestamp:
  assumes "items \<noteq> []" and "sortBy data = Some ''timestamp''"
  shows "sortPosts isNumber items data =
     Inr (js_sort (\<lambda>post_1 post_2.
            Some ((if sortDirection data = Some ''desc'' \<or> \<not> truthy_str (sortDirection data)
                   then 1 else - 1) * (p_timestamp post_2 - p_timestamp post_1))) items)"
  using assms
  by (simp add: sortPosts_def Let_def post_prop_timestamp num_cmp_def to_number_def
        truthy_str_def split: option.splits)

text \<open>
  C9. For every non-empty list of hydrated posts and \<open>sortBy = timestamp\<close>, the sort
  returns a permutation of its input; with \<open>sortDirection = desc\<close>, or none given, the
  timestamps are non-increasing, with \<open>sortDirection = asc\<close> they are non-decreasing.
\<close>

theorem sortPosts_by_timestamp:
  assumes "items \<noteq> []" and "sortBy data = Some ''timestamp''"
  shows "\<exists>ys. sortPosts isNumber items data = Inr ys \<and> mset ys = mset items
     \<and> (sortDirection data = Some ''desc'' \<or> sortDirection data = None
          \<longrightarrow> sorted_wrt (\<lambda>a b. p_timestamp a \<ge> p_timestamp b) ys)
     \<and> (sortDirection data = Some ''asc''
          \<longrightarrow> sorted_wrt (\<lambda>a b. p_timestamp a \<le> p_timestamp b) ys)"
proof -
  let ?dir = "if sortDirection data = Some ''desc'' \<or> \<not> truthy_str (sortDirection data)
              then 1 else - 1 :: int"
  let ?cmp = "\<lambda>post_1 post_2. Some (?dir * (p_timestamp post_2 - p_timestamp post_1))"
  let ?ys = "js_sort ?cmp items"
  have run: "sortPosts isNumber items data = Inr ?ys"
    by (rule sortPosts_timestamp [OF assms])
  have perm: "mset ?ys = mset items" by (rule mset_js_sort)
  have desc: "sorted_wrt (\<lambda>a b. p_timestamp a \<ge> p_timestamp b) ?ys"
    if "sortDirection data = Some ''desc'' \<or> sortDirection data = None"
  proof -
    from that have d: "?dir = 1" by (auto simp: truthy_str_def)
    have "sorted_wrt (\<lambda>a b. - p_timestamp a \<le> - p_timestamp b) (js_sort ?cmp items)"
      by (rule sorted_js_sort_key) (simp add: d cmp_val_def)
    then show ?thesis by simp
  qed
  have asc: "sorted_wrt (\<lambda>a b. p_timestamp a \<le> p_timestamp b) ?ys"
    if "sortDirection data = Some ''asc''"
  proof -
    from that have d: "?dir = - 1" by (simp add: truthy_str_def)
    show ?thesis
      by (rule sorted_js_sort_key) (simp add: d cmp_val_def)
  qed
  show ?thesis
  proof (rule exI [of _ ?ys], intro conjI impI)
    show "sortPosts isNumber items data = Inr ?ys" by (rule run)
    show "mset ?ys = mset items" by (rule perm)
    show "sorted_wrt (\<lambda>a b. p_timestamp a \<ge> p_timestamp b) ?ys"
      if "sortDirection data = Some ''desc'' \<or> sortDirection data = None"
      using that by (rule desc)
    show "sorted_wrt (\<lambda>a b. p_timestamp a \<le> p_timestamp b) ?ys"
      if "sortDirection data = Some ''asc''"
      using that by (rule asc)
  qed
qed

theorem sortPosts_by_timestamp_witness:
  "\<exists>ys. sortPosts (\<lambda>v. False) demo_posts3 (blank_request\<lparr>sortBy := Some ''timestamp''\<rparr>) = Inr ys
     \<and> mset ys = mset demo_posts3
     \<and> sorted_wrt (\<lambda>a b. p_timestamp a \<ge> p_timestamp b) ys"
proof -
  have a: "demo_posts3 \<noteq> []" by (simp add: demo_posts3_def)
  have b: "sortBy (blank_request\<lparr>sortBy := Some ''timestamp''\<rparr>) = Some ''timestamp''" by simp
  have c: "sortDirection (blank_request\<lparr>sortBy := Some ''timestamp''\<rparr>) = None"
    by (simp add: blank_request_def)
  from sortPosts_by_timestamp [OF a b, of "\<lambda>v. False"] c show ?thesis by blast
qed

lemma sortPosts_demo:
  "sortPosts (\<lambda>v. False) demo_posts3 (blank_request\<lparr>sortBy := Some ''timestamp''\<rparr>)
   = Inr [demo_ipost 1 300 5 [''a'', ''b'', ''c''], demo_ipost 3 200 6 [''a'', ''b''],
          demo_ipost 2 100 4 [''a'']]"
proof -
  have a: "demo_posts3 \<noteq> []" by (simp add: demo_posts3_def)
  have b: "sortBy (blank_request\<lparr>sortBy := Some ''timestamp''\<rparr>) = Some ''timestamp''" by simp
  have c: "sortDirection (blank_request\<lparr>sortBy := Some ''timestamp''\<rparr>) = None"
    by (simp add: blank_request_def)
  have ts: "p_timestamp (demo_ipost i t pc tags) = t" for i t pc tags
    by (simp add: demo_ipost_def)
  show ?thesis
    unfolding sortPosts_timestamp [OF a b] c
    by (simp add: demo_posts3_def cmp_val_def truthy_str_def ts)
qed

section \<open>The fast path of \<^verbatim>\<open>filterAndSort\<close>\<close>

text \<open>
  C1. For every candidate list and every request with \<open>sortBy = relevance\<close>, no
  \<open>replies\<close>, no \<open>timeRange\<close>, no \<open>hasTags\<close> (each field absent or falsy, as the code
  tests it), a domain other than bookmarks and no listener of
  \<^verbatim>\<open>filter:search.filterAndSort\<close>, \<open>filterAndSort\<close> returns the candidates unchanged
  and calls no collaborator at all: no post, topic, user or category is fetched.
\<close>

theorem fast_path_returns_candidates:
  assumes "sortBy data = Some ''relevance''"
    and "\<not> truthy_str (replies data)"
    and "\<not> truthy_str (timeRange data)"
    and "\<not> truthy_soa (hasTags data)"
    and "searchIn data \<noteq> Some ''bookmarks''"
    and "on_filterAndSort (hk e) = []"
  shows "filterAndSort e pids data = (Inr pids, [])"
  using assms by (simp add: filterAndSort_def fastPath_def hasListeners_def eff_ret_def)

theorem fast_path_returns_candidates_witness:
  "filterAndSort demo_env [Some 2, None, Some 1]
     (blank_request\<lparr>sortBy := Some ''relevance'', searchIn := Some ''posts''\<rparr>)
   = (Inr [Some 2, None, Some 1], [])"
  using fast_path_returns_candidates [of "blank_request\<lparr>sortBy := Some ''relevance'', searchIn := Some ''posts''\<rparr>"
              demo_env "[Some 2, None, Some 1]"]
  by (simp add: blank_request_def truthy_str_def truthy_soa_def demo_env_def no_hooks_def)

text \<open>
  An array is truthy even when it is empty: \<open>hasTags = []\<close> filters nothing, yet it
  leaves the fast path and the candidates are hydrated.
\<close>

lemma empty_hasTags_leaves_fast_path:
  "\<not> fastPath e (data\<lparr>hasTags := Some (StrArr [])\<rparr>)"
  by (simp add: fastPath_def truthy_soa_def)


section \<open>Deleted posts and topics in \<^verbatim>\<open>filterAndSort\<close>\<close>

lemma timestamp_sort_not_fast: "\<not> fastPath e (blank_request\<lparr>sortBy := Some ''timestamp'', searchIn := Some ''posts''\<rparr>)"
  by (simp add: fastPath_def)

lemma getMatchedPosts_demo_deleted: "getMatchedPosts demo_env [Some 2] (blank_request\<lparr>sortBy := Some ''timestamp'', searchIn := Some ''posts''\<rparr>)
  = (Inr [], [Call_getPostsFields [Some 2], Call_getTopicsData []])"
  by (simp add: getMatchedPosts_def getUsers_def getTopics_def getCategories_def
        eff_bind_def eff_call_def eff_ret_def eff_both_def Let_def List.map_filter_def
        demo_env_def demo_stores_def demo_post_def)

lemma getMatchedPosts_demo_topicless: "getMatchedPosts demo_env [Some 3, Some 4] (blank_request\<lparr>sortBy := Some ''timestamp'', searchIn := Some ''posts''\<rparr>)
  = (Inr [], [Call_getPostsFields [Some 3, Some 4], Call_getTopicsData [20, 30]])"
  by (simp add: getMatchedPosts_def getUsers_def getTopics_def getCategories_def
        eff_bind_def eff_call_def eff_ret_def eff_both_def Let_def List.map_filter_def
        demo_env_def demo_stores_def demo_post_def demo_topic_def zipObject_def)

lemma getMatchedPosts_demo_all: "fst (getMatchedPosts demo_env [Some 1, Some 2, Some 3, Some 4] (blank_request\<lparr>sortBy := Some ''timestamp'', searchIn := Some ''posts''\<rparr>))
  = Inr [\<lparr>p_pid = 1, p_uid = 1, p_tid = 10, p_timestamp = 100, p_deleted = 0,
      p_upvotes = 0, p_downvotes = 0,
      p_topic = Some \<lparr>t_cid = 1, t_deleted = 0, t_postcount = 3, t_title = ''a title'',
                       t_tags = None, t_category = None\<rparr>,
      p_category = None, p_user = None\<rparr>]"
  by (simp add: getMatchedPosts_def getUsers_def getTopics_def getCategories_def
        eff_bind_def eff_call_def eff_ret_def eff_both_def Let_def List.map_filter_def
        demo_env_def demo_stores_def demo_post_def demo_topic_def zipObject_def)

text \<open>
  C3 states that, off the fast path, every candidate that is soft-deleted, or whose
  parent topic is missing or soft-deleted, is excluded from the result. The hydration
  does drop these posts, but when it drops every candidate the early return of line 169
  hands back the candidates as they came: the soft-deleted post 2 is in the result,
  and so are post 3, whose topic is soft-deleted, and post 4, whose topic does not
  exist.
\<close>

theorem filterAndSort_returns_dropped_candidates:
  "filterAndSort demo_env [Some 2]
     (blank_request\<lparr>sortBy := Some ''timestamp'', searchIn := Some ''posts''\<rparr>)
   = (Inr [Some 2], [Call_getPostsFields [Some 2], Call_getTopicsData []])
   \<and> filterAndSort demo_env [Some 3, Some 4]
     (blank_request\<lparr>sortBy := Some ''timestamp'', searchIn := Some ''posts''\<rparr>)
   = (Inr [Some 3, Some 4],
      [Call_getPostsFields [Some 3, Some 4], Call_getTopicsData [20, 30]])"
  by (simp add: filterAndSort_def timestamp_sort_not_fast getMatchedPosts_demo_deleted
        getMatchedPosts_demo_topicless eff_bind_def eff_ret_def)

text \<open>With the live post 1 among the candidates the same three are dropped.\<close>

lemma filterAndSort_demo_all:
  "fst (filterAndSort demo_env [Some 1, Some 2, Some 3, Some 4]
          (blank_request\<lparr>sortBy := Some ''timestamp'', searchIn := Some ''posts''\<rparr>))
   = Inr [Some 1]"
proof -
  let ?d = "blank_request\<lparr>sortBy := Some ''timestamp'', searchIn := Some ''posts''\<rparr>"
  obtain l where gm: "getMatchedPosts demo_env [Some 1, Some 2, Some 3, Some 4] ?d
      = (Inr [\<lparr>p_pid = 1, p_uid = 1, p_tid = 10, p_timestamp = 100, p_deleted = 0,
      p_upvotes = 0, p_downvotes = 0,
      p_topic = Some \<lparr>t_cid = 1, t_deleted = 0, t_postcount = 3, t_title = ''a title'',
                       t_tags = None, t_category = None\<rparr>,
      p_category = None, p_user = None\<rparr>], l)"
    using getMatchedPosts_demo_all
    by (cases "getMatchedPosts demo_env [Some 1, Some 2, Some 3, Some 4] ?d") auto
  have hooks: "on_filterAndSort (hk demo_env) = []" by (simp add: demo_env_def no_hooks_def)
  have fld: "replies ?d = None" "timeRange ?d = None" "hasTags ?d = None"
    "sortBy ?d = Some ''timestamp''" "sortDirection ?d = None"
    by (simp_all add: blank_request_def)
  show ?thesis
    by (simp add: filterAndSort_def timestamp_sort_not_fast gm eff_bind_def eff_ret_def
          eff_lift_def eff_call_def applyFilters_def filterByPostcount_def
          filterByTimerange_def filterByTags_def sortPosts_def post_prop_def Let_def
          truthy_str_def fire_def hooks fld)
qed


section \<open>Domains of \<^verbatim>\<open>search.search\<close>\<close>

text \<open>
  C2, as the code has it. A request whose domain is absent or empty ends in the hard
  error \<^verbatim>\<open>[[error:unknown-search-filter]]\<close> with no call made and no result. A
  non-empty domain that is none of the built-in ones is handed to the listeners of
  \<^verbatim>\<open>filter:search.searchIn\<close>, and what they return is the answer; nothing tests whether
  a listener took the domain.
\<close>

theorem search_unknown_domain:
  "(\<not> truthy_str (searchIn data) \<longrightarrow> search e data = (Inl UnknownSearchFilter, []))
   \<and> (truthy_str (searchIn data)
        \<and> searchIn data \<notin> set [Some ''posts'', Some ''titles'', Some ''titlesposts'',
                                 Some ''bookmarks'', Some ''users'', Some ''categories'',
                                 Some ''tags'']
       \<longrightarrow> search e data =
             (Inr \<lparr>body = fire (on_searchIn (hk e))
                             (HookParams (data\<lparr>sortBy := (if truthy_str (sortBy data)
                                                            then sortBy data
                                                            else Some ''relevance'')\<rparr>)),
                    time = elapsed (sv e)\<rparr>,
              [Call_fire ''filter:search.searchIn'']))"
  by (auto simp: search_def Let_def truthy_str_def eff_bind_def eff_call_def eff_ret_def
        eff_throw_def split: option.splits)

theorem search_unknown_domain_witness:
  "search demo_env blank_request = (Inl UnknownSearchFilter, [])
   \<and> search demo_env (blank_request\<lparr>searchIn := Some []\<rparr>) = (Inl UnknownSearchFilter, [])
   \<and> fst (search demo_env (blank_request\<lparr>searchIn := Some ''wiki''\<rparr>))
     = Inr \<lparr>body = HookParams (blank_request\<lparr>searchIn := Some ''wiki'',
                                                sortBy := Some ''relevance''\<rparr>),
            time = ''0.00''\<rparr>"
  using search_unknown_domain [of blank_request demo_env]
        search_unknown_domain [of "blank_request\<lparr>searchIn := Some []\<rparr>" demo_env]
        search_unknown_domain [of "blank_request\<lparr>searchIn := Some ''wiki''\<rparr>" demo_env]
  by (simp add: truthy_str_def blank_request_def fire_def demo_env_def no_hooks_def
        demo_services_def)

text \<open>
  The domain \<open>wiki\<close> is not built in and the installation has no listener, yet the
  search answers: the hook parameters come back with the \<open>time\<close> field set.
\<close>

theorem search_unclaimed_domain_answers:
  "Some ''wiki'' \<notin> set [Some ''posts'', Some ''titles'', Some ''titlesposts'',
                          Some ''bookmarks'', Some ''users'', Some ''categories'', Some ''tags'']
   \<and> on_searchIn (hk demo_env) = []
   \<and> search demo_env (blank_request\<lparr>searchIn := Some ''wiki''\<rparr>)
     = (Inr \<lparr>body = HookParams (blank_request\<lparr>searchIn := Some ''wiki'',
                                                 sortBy := Some ''relevance''\<rparr>),
             time = ''0.00''\<rparr>,
        [Call_fire ''filter:search.searchIn''])"
  by (simp add: search_def Let_def truthy_str_def blank_request_def eff_bind_def eff_call_def
        eff_ret_def fire_def demo_env_def no_hooks_def demo_services_def)

section \<open>The scoping token \<^verbatim>\<open>in:topic-<id>\<close>\<close>

lemma bc_ret [simp]: "backend_calls (eff_ret x) = []"
  by (simp add: backend_calls_def eff_ret_def)

lemma bc_throw [simp]: "backend_calls (eff_throw x) = []"
  by (simp add: backend_calls_def eff_throw_def)

lemma bc_lift [simp]: "backend_calls (eff_lift x) = []"
  by (simp add: backend_calls_def eff_lift_def)

lemma bc_call: "backend_calls (eff_call c v) = (if is_backend_call c then [c] else [])"
  by (simp add: backend_calls_def eff_call_def)

lemma bc_bind:
  "backend_calls (eff_bind m f) =
     backend_calls m @ (case fst m of Inl e \<Rightarrow> [] | Inr x \<Rightarrow> backend_calls (f x))"
  by (cases m; cases "fst m") (auto simp: backend_calls_def eff_bind_def split: prod.splits)

lemma bc_bind_quiet:
  assumes "backend_calls m = []" and "\<And>x. backend_calls (f x) = []"
  shows "backend_calls (eff_bind m f) = []"
  using assms by (simp add: bc_bind split: sum.splits)

lemma bc_both: "backend_calls (eff_both m1 m2) = backend_calls m1 @ backend_calls m2"
  by (cases m1; cases m2; cases "fst m1"; cases "fst m2")
     (auto simp: backend_calls_def eff_both_def)

lemma bc_mapM_quiet:
  assumes "\<And>x. backend_calls (f x) = []"
  shows "backend_calls (eff_mapM f xs) = []"
  by (induction xs) (simp_all add: bc_bind_quiet assms)

lemma bc_getCategories: "backend_calls (getCategories e cids data) = []"
  by (simp add: getCategories_def bc_call is_backend_call_def Let_def split: option.splits)

lemma bc_getTopics: "backend_calls (getTopics e tids data) = []"
  unfolding getTopics_def Let_def
  by (intro bc_bind_quiet) (simp_all add: bc_call is_backend_call_def bc_getCategories)

lemma bc_getUsers: "backend_calls (getUsers e uids data) = []"
  by (simp add: getUsers_def bc_call is_backend_call_def split: option.splits)

lemma bc_getMatchedPosts: "backend_calls (getMatchedPosts e pids data) = []"
  unfolding getMatchedPosts_def Let_def
  by (intro bc_bind_quiet)
     (simp_all add: bc_call is_backend_call_def bc_both bc_getUsers bc_getTopics split: prod.splits)

lemma bc_filterAndSort: "backend_calls (filterAndSort e pids data) = []"
  unfolding filterAndSort_def
  by (auto intro!: bc_bind_quiet simp: bc_call is_backend_call_def bc_getMatchedPosts)

lemma bc_getWatchedCids: "backend_calls (getWatchedCids e data) = []"
  by (simp add: getWatchedCids_def bc_call is_backend_call_def)

lemma bc_getChildrenCids: "backend_calls (getChildrenCids e data) = []"
  unfolding getChildrenCids_def
  by (auto intro!: bc_bind_quiet bc_mapM_quiet simp: bc_call is_backend_call_def)

lemma bc_getSearchCids: "backend_calls (getSearchCids e data) = []"
  unfolding getSearchCids_def
  by (auto intro!: bc_bind_quiet simp: bc_call is_backend_call_def bc_both
        bc_getWatchedCids bc_getChildrenCids)

lemma bc_getSearchUids: "backend_calls (getSearchUids e data) = []"
  by (simp add: getSearchUids_def bc_call is_backend_call_def Let_def)

lemma bc_respond: "backend_calls (respond e data mainPids pids tids allPids md) = []"
  unfolding respond_def Let_def
  by (auto intro!: bc_bind_quiet simp: bc_call is_backend_call_def)

lemma startsWith_append: "startsWith (p @ r) p"
  by (induction p) simp_all

lemma replaceFirst_prefix:
  assumes "p \<noteq> []"
  shows "replaceFirst p [] (p @ r) = r"
proof -
  from assms obtain c cs where pc: "p @ r = c # cs" by (cases p) auto
  have "startsWith (c # cs) p" using startsWith_append [of p r] by (simp add: pc)
  then have "replaceFirst p [] (c # cs) = drop (length p) (c # cs)" by simp
  then show ?thesis by (simp flip: pc)
qed

lemma space_not_digit: "\<not> is_digit CHR '' ''"
  by (simp add: is_digit_def digit_val_def)

lemma matchInTopic_token:
  assumes "ds \<noteq> []" and "list_all is_digit ds"
  shows "matchInTopic (''in:topic-'' @ ds @ '' '' @ rest) = Some (''in:topic-'' @ ds @ '' '', ds)"
proof -
  have all: "\<And>x. x \<in> set ds \<Longrightarrow> is_digit x"
    using assms(2) by (simp add: list_all_iff)
  have "takeWhile is_digit (ds @ CHR '' '' # rest) = ds @ takeWhile is_digit (CHR '' '' # rest)"
    by (rule takeWhile_append2) (rule all)
  then have tw: "takeWhile is_digit (ds @ CHR '' '' # rest) = ds"
    by (simp add: space_not_digit)
  have "dropWhile is_digit (ds @ CHR '' '' # rest) = dropWhile is_digit (CHR '' '' # rest)"
    by (rule dropWhile_append2) (rule all)
  then have dw: "dropWhile is_digit (ds @ CHR '' '' # rest) = CHR '' '' # rest"
    by (simp add: space_not_digit)
  show ?thesis
    using assms(1) by (simp add: matchInTopic_def Let_def tw dw space_not_digit)
qed

lemma dispatch_in_topic:
  assumes "query data = Some (''in:topic-'' @ ds @ '' '' @ rest)"
    and "ds \<noteq> []" and "list_all is_digit ds"
  shows "dispatch e data searchCids searchUids =
           (Inr (topics_search (sv e) ds rest, []), [Call_topicsSearch ds rest])"
proof -
  have rf: "replaceFirst (''in:topic-'' @ ds @ '' '') [] (''in:topic-'' @ ds @ '' '' @ rest) = rest"
    using replaceFirst_prefix [of "''in:topic-'' @ ds @ '' ''" rest] by simp
  show ?thesis
    unfolding dispatch_def
    by (simp only: assms(1) option.case matchInTopic_token [OF assms(2,3)] prod.case Let_def rf)
       (simp add: eff_bind_def eff_call_def eff_ret_def)
qed

lemma ok_mapM:
  assumes "\<And>x. \<not> isl (fst (f x))"
  shows "\<not> isl (fst (eff_mapM f xs))"
proof (induction xs)
  case Nil
  show ?case by (simp add: eff_ret_def)
next
  case (Cons x xs)
  obtain a l where fx: "f x = (Inr a, l)"
    using assms [of x] by (cases "f x"; cases "fst (f x)") auto
  obtain b l' where fxs: "eff_mapM f xs = (Inr b, l')"
    using Cons.IH by (cases "eff_mapM f xs"; cases "fst (eff_mapM f xs)") auto
  show ?case by (simp add: fx fxs eff_bind_def eff_ret_def)
qed

lemma ok_getSearchCids: "\<not> isl (fst (getSearchCids e data))"
proof -
  have w: "\<not> isl (fst (getWatchedCids e data))"
    by (simp add: getWatchedCids_def eff_ret_def eff_call_def)
  have m: "\<not> isl (fst (eff_mapM (\<lambda>cid. eff_call (Call_getChildrenCids cid)
                                     (categories_getChildrenCids (sv e) cid)) xs))" for xs
    by (rule ok_mapM) (simp add: eff_call_def)
  have c: "\<not> isl (fst (getChildrenCids e data))"
    using m [of "categories_of data"]
    by (cases "eff_mapM (\<lambda>cid. eff_call (Call_getChildrenCids cid)
                                     (categories_getChildrenCids (sv e) cid)) (categories_of data)";
        cases "fst (eff_mapM (\<lambda>cid. eff_call (Call_getChildrenCids cid)
                                     (categories_getChildrenCids (sv e) cid)) (categories_of data))")
       (auto simp: getChildrenCids_def eff_ret_def eff_call_def eff_bind_def)
  show ?thesis
    using w c
    by (cases "getWatchedCids e data"; cases "fst (getWatchedCids e data)";
        cases "getChildrenCids e data"; cases "fst (getChildrenCids e data)")
       (auto simp: getSearchCids_def eff_ret_def eff_call_def eff_bind_def eff_both_def)
qed

lemma ok_getSearchUids: "\<not> isl (fst (getSearchUids e data))"
  by (simp add: getSearchUids_def eff_ret_def eff_call_def Let_def)

lemma ok_scope:
  "\<exists>cs us. fst (eff_both (getSearchCids e data) (getSearchUids e data)) = Inr (cs, us)"
  using ok_getSearchCids [of e data] ok_getSearchUids [of e data]
  by (cases "getSearchCids e data"; cases "fst (getSearchCids e data)";
      cases "getSearchUids e data"; cases "fst (getSearchUids e data)")
     (auto simp: eff_both_def)

text \<open>
  C7. For every request whose text begins with \<^verbatim>\<open>in:topic-\<close>, a non-empty run of
  digits and a space, the dispatch is one call of the per-topic search, on the digits
  as topic id and on the text that follows the token; and in the whole run of
  \<open>searchInContent\<close> this is the only call that reaches a backend: no index is queried
  and no bookmark batch is read.
\<close>

theorem in_topic_bypasses_dispatch:
  assumes "query data = Some (''in:topic-'' @ ds @ '' '' @ rest)"
    and "ds \<noteq> []" and "list_all is_digit ds"
  shows "dispatch e (data\<lparr>uid := Some (uid_of data)\<rparr>) searchCids searchUids =
           (Inr (topics_search (sv e) ds rest, []), [Call_topicsSearch ds rest])
       \<and> filter is_backend_call (snd (searchInContent e data)) = [Call_topicsSearch ds rest]"
proof -
  let ?d = "data\<lparr>uid := Some (uid_of data)\<rparr>"
  define later where "later = (\<lambda>pids tids.
      eff_bind (eff_call (Call_getMainPids tids) (topics_getMainPids (sv e) tids))
         (\<lambda>mainPids.
            eff_bind (eff_call (Call_privilegesFilter (mergeCandidates mainPids pids))
                        (privileges_posts_filter (sv e) ''topics:read''
                           (mergeCandidates mainPids pids) (uid_of ?d)))
              (\<lambda>readable.
                 eff_bind (filterAndSort e readable ?d)
                   (\<lambda>allPids.
                      eff_bind (eff_call (Call_fire ''filter:search.inContent'')
                                  (fire (on_inContent (hk e))
                                     \<lparr>m_pids = allPids,
                                      m_data = requestAfterFilterAndSort e readable ?d,
                                      m_extra = []\<rparr>))
                        (respond e (requestAfterFilterAndSort e readable ?d)
                           mainPids pids tids allPids)))))"
  define scope where "scope = eff_both (getSearchCids e ?d) (getSearchUids e ?d)"
  have whole: "searchInContent e data =
      eff_bind scope (\<lambda>(cs, us). eff_bind (dispatch e ?d cs us) (\<lambda>(pids, tids). later pids tids))"
    by (simp add: searchInContent_def Let_def later_def scope_def)
  have q: "query ?d = Some (''in:topic-'' @ ds @ '' '' @ rest)" using assms(1) by simp
  have disp: "dispatch e ?d cs us =
           (Inr (topics_search (sv e) ds rest, []), [Call_topicsSearch ds rest])" for cs us
    by (rule dispatch_in_topic [OF q assms(2,3)])
  have later_quiet: "backend_calls (later pids tids) = []" for pids tids
    unfolding later_def
    by (intro bc_bind_quiet)
       (simp_all add: bc_call is_backend_call_def bc_filterAndSort bc_respond)
  have inner: "backend_calls (eff_bind (dispatch e ?d cs us) (\<lambda>(pids, tids). later pids tids))
               = [Call_topicsSearch ds rest]" for cs us
    by (simp add: bc_bind disp later_quiet) (simp add: backend_calls_def is_backend_call_def)
  obtain cs us where sc: "fst scope = Inr (cs, us)"
    unfolding scope_def using ok_scope by blast
  have scq: "backend_calls scope = []"
    by (simp add: scope_def bc_both bc_getSearchCids bc_getSearchUids)
  have "backend_calls (searchInContent e data) = [Call_topicsSearch ds rest]"
    unfolding whole by (simp add: bc_bind [of scope] sc scq inner)
  then show ?thesis
    using disp by (simp add: backend_calls_def)
qed

theorem in_topic_bypasses_dispatch_witness:
  "dispatch demo_env (blank_request\<lparr>query := Some ''in:topic-42 hello'',
                                     searchIn := Some ''titlesposts''\<rparr>
                                   \<lparr>uid := Some (uid_of (blank_request\<lparr>query := Some ''in:topic-42 hello'',
                                     searchIn := Some ''titlesposts''\<rparr>))\<rparr>) [] []
     = (Inr ([Some 1], []), [Call_topicsSearch ''42'' ''hello''])
   \<and> filter is_backend_call
       (snd (searchInContent demo_env (blank_request\<lparr>query := Some ''in:topic-42 hello'',
                                                      searchIn := Some ''titlesposts''\<rparr>)))
     = [Call_topicsSearch ''42'' ''hello'']"
proof -
  let ?d = "blank_request\<lparr>query := Some ''in:topic-42 hello'', searchIn := Some ''titlesposts''\<rparr>"
  have q: "query ?d = Some (''in:topic-'' @ ''42'' @ '' '' @ ''hello'')" by simp
  have ne: "''42'' \<noteq> []" by simp
  have dg: "list_all is_digit ''42''" by (simp add: is_digit_def digit_val_def)
  have ts: "topics_search (sv demo_env) ''42'' ''hello'' = [Some 1]"
    by (simp add: demo_env_def demo_services_def)
  from in_topic_bypasses_dispatch [OF q ne dg, of demo_env "[]" "[]"] show ?thesis
    unfolding ts .
qed

section \<open>Token matching on bookmarks\<close>

lemma startsWith_iff: "startsWith s p \<longleftrightarrow> (\<exists>r. s = p @ r)"
  by (induction s p rule: startsWith.induct) auto

lemma includes_str_iff: "includes_str s t \<longleftrightarrow> (\<exists>a b. s = a @ t @ b)"
proof (induction s)
  case Nil
  show ?case by simp
next
  case (Cons c cs)
  show ?case
  proof
    assume "includes_str (c # cs) t"
    then consider "startsWith (c # cs) t" | "includes_str cs t" by auto
    then show "\<exists>a b. c # cs = a @ t @ b"
    proof cases
      case 1
      then obtain r where "c # cs = t @ r" by (auto simp: startsWith_iff)
      then have "c # cs = [] @ t @ r" by simp
      then show ?thesis by blast
    next
      case 2
      then obtain a b where "cs = a @ t @ b" using Cons.IH by blast
      then have "c # cs = (c # a) @ t @ b" by simp
      then show ?thesis by blast
    qed
  next
    assume "\<exists>a b. c # cs = a @ t @ b"
    then obtain a b where ab: "c # cs = a @ t @ b" by blast
    show "includes_str (c # cs) t"
    proof (cases a)
      case Nil
      with ab have "startsWith (c # cs) t" by (auto simp: startsWith_iff)
      then show ?thesis by simp
    next
      case (Cons x a')
      with ab have "cs = a' @ t @ b" by simp
      then have "includes_str cs t" using Cons.IH by blast
      then show ?thesis by simp
    qed
  qed
qed

lemma zip_pad_map: "zip_pad ks (map h ks) = map (\<lambda>k. (k, h k)) ks"
  by (induction ks) simp_all

lemma zipObject_map:
  assumes "k \<in> set ks"
  shows "zipObject ks (map h ks) k = h k"
proof -
  have f: "filter (\<lambda>kv. fst kv = k) (map (\<lambda>k. (k, h k)) ks) = map (\<lambda>x. (k, h k)) (filter (\<lambda>x. x = k) ks)"
    by (induction ks) auto
  from assms have ne: "filter (\<lambda>x. x = k) ks \<noteq> []"
    by (simp add: filter_empty_conv)
  then obtain y ys where yys: "filter (\<lambda>x. x = k) ks = y # ys" by (cases "filter (\<lambda>x. x = k) ks") auto
  have "last (map (\<lambda>x. (k, h k)) (y # ys)) = (k, h k)"
    by (simp add: last_map)
  then show ?thesis
    unfolding zipObject_def zip_pad_map f yys by simp
qed

lemma set_uniq: "set (uniq xs) = set xs"
  by (induction xs) auto

lemma filterIdx_map:
  assumes "\<And>x. x \<in> set xs \<Longrightarrow> f (g x) = Inr (k x)"
  shows "filterIdx f xs (map g xs) = Inr (filter k xs)"
  using assms by (induction xs) simp_all

lemma tokensMatch_iff:
  "tokensMatch mw tokens content title \<longleftrightarrow>
     (if mw = Some ''any''
      then \<exists>token \<in> set tokens. (\<exists>a b. content = a @ token @ b) \<or> (\<exists>a b. title = a @ token @ b)
      else \<forall>token \<in> set tokens. (\<exists>a b. content = a @ token @ b) \<or> (\<exists>a b. title = a @ token @ b))"
  by (simp add: tokensMatch_def list_ex_iff list_all_iff includes_str_iff)

lemma fst_eff_bind: "fst m = Inr x \<Longrightarrow> fst (eff_bind m f) = fst (f x)"
  by (cases m) (auto simp: eff_bind_def split: prod.splits)

lemma scopedPids_unscoped: "scopedPids e [] [] pids = pids"
  by (simp add: scopedPids_def)

lemma bookmarkBatch_query:
  assumes q: "query data = Some q" "q \<noteq> []"
    and present: "\<And>pid. pid \<in> set (scopedPids e cids uids pids) \<Longrightarrow>
          \<exists>t. db_post (st e) pid = Some \<lparr>po_content = Some (content pid), po_tid = Some t\<rparr>
              \<and> db_topic (st e) t = Some \<lparr>to_title = Some (title pid)\<rparr>"
  shows "fst (bookmarkBatch e data cids uids pids) =
           Inr (filter (\<lambda>pid. tokensMatch (matchWords data) (split_on CHR '' '' q)
                                 (content pid) (title pid))
                  (scopedPids e cids uids pids))"
proof -
  define p2 where "p2 = scopedPids e cids uids pids"
  let ?postData = "map (db_post (st e)) p2"
  let ?tids = "uniq (map (\<lambda>p. po_tid (the p)) ?postData)"
  let ?topicData = "map (\<lambda>tid. case tid of None \<Rightarrow> None | Some t \<Rightarrow> db_topic (st e) t) ?tids"
  have nonone: "\<not> list_ex (\<lambda>p. p = None) ?postData"
    using present unfolding p2_def [symmetric] by (fastforce simp: list_ex_iff)
  have keep: "keepBookmark (matchWords data) (split_on CHR '' '' q) (zipObject ?tids ?topicData)
                (db_post (st e) pid)
              = Inr (tokensMatch (matchWords data) (split_on CHR '' '' q) (content pid) (title pid))"
    if "pid \<in> set p2" for pid
  proof -
    from present [of pid] that obtain t where
      po: "db_post (st e) pid = Some \<lparr>po_content = Some (content pid), po_tid = Some t\<rparr>"
      and tp: "db_topic (st e) t = Some \<lparr>to_title = Some (title pid)\<rparr>"
      unfolding p2_def by blast
    have "Some t \<in> set ?tids"
      unfolding set_uniq using that po by (force simp: image_iff)
    then have "zipObject ?tids ?topicData (Some t) = db_topic (st e) t"
      by (simp add: zipObject_map)
    then show ?thesis
      by (simp add: keepBookmark_def po tp)
  qed
  have fidx: "filterIdx (keepBookmark (matchWords data) (split_on CHR '' '' q)
                           (zipObject ?tids ?topicData)) p2 ?postData
        = Inr (filter (\<lambda>pid. tokensMatch (matchWords data) (split_on CHR '' '' q)
                                 (content pid) (title pid)) p2)"
    by (rule filterIdx_map) (rule keep)
  define tail where "tail = (\<lambda>pids2.
               if truthy_str (query data)
               then
                 (let tokens = split_on CHR '' '' (the (query data))
                  in eff_bind (eff_call (Call_dbPostFields pids2) (map (db_post (st e)) pids2))
                       (\<lambda>postData.
                          if list_ex (\<lambda>p. p = None) postData then eff_throw TypeError
                          else
                            (let tids = uniq (map (\<lambda>p. po_tid (the p)) postData)
                             in eff_bind (eff_call (Call_dbTopicFields tids)
                                            (map (\<lambda>tid. case tid of
                                                          None \<Rightarrow> None
                                                        | Some t \<Rightarrow> db_topic (st e) t) tids))
                                  (\<lambda>topicData.
                                     (let tidToTopic = zipObject tids topicData
                                      in eff_lift
                                           (filterIdx (keepBookmark (matchWords data) tokens tidToTopic)
                                              pids2 postData))))))
               else eff_ret pids2)"
  have query_part: "fst (tail p2)
         = Inr (filter (\<lambda>pid. tokensMatch (matchWords data) (split_on CHR '' '' q)
                                 (content pid) (title pid)) p2)"
    using q nonone fidx
    by (simp add: tail_def Let_def truthy_str_def eff_bind_def eff_ret_def eff_call_def
          eff_lift_def eff_throw_def)
  let ?pids1 = "if cids \<noteq> [] then posts_filterPidsByCid (sv e) pids cids else pids"
  let ?A = "if cids \<noteq> []
            then eff_call Call_filterPidsByCid (posts_filterPidsByCid (sv e) pids cids)
            else eff_ret pids"
  let ?B = "\<lambda>pids1. if uids \<noteq> []
                    then eff_call Call_filterPidsByUid (posts_filterPidsByUid (sv e) pids1 uids)
                    else eff_ret pids1"
  have bb: "bookmarkBatch e data cids uids pids = eff_bind ?A (\<lambda>pids1. eff_bind (?B pids1) tail)"
    by (simp add: bookmarkBatch_def tail_def)
  have s1: "fst ?A = Inr ?pids1" by (simp add: eff_call_def eff_ret_def)
  have s2: "fst (?B ?pids1) = Inr p2"
    by (simp add: p2_def scopedPids_def Let_def eff_call_def eff_ret_def)
  have "fst (bookmarkBatch e data cids uids pids) = fst (tail p2)"
    unfolding bb
    using fst_eff_bind [OF s1, of "\<lambda>pids1. eff_bind (?B pids1) tail"] fst_eff_bind [OF s2, of tail]
    by simp
  with query_part show ?thesis unfolding p2_def by simp
qed

lemma chunks_Nil: "chunks n [] = []"
  by (subst chunks.simps) simp

lemma concat_chunks: "0 < n \<Longrightarrow> concat (chunks n xs) = xs"
proof (induction n xs rule: chunks.induct)
  case (1 n xs)
  show ?case
  proof (cases "xs = []")
    case True
    then show ?thesis by (simp add: chunks_Nil)
  next
    case False
    with 1 have "concat (chunks n (drop n xs)) = drop n xs" by simp
    with False 1(2) show ?thesis by (simp add: chunks.simps [of n xs])
  qed
qed

lemma set_chunks: "ys \<in> set (chunks n xs) \<Longrightarrow> set ys \<subseteq> set xs"
proof (induction n xs rule: chunks.induct)
  case (1 n xs)
  show ?case
  proof (cases "n = 0 \<or> xs = []")
    case True
    with 1(2) show ?thesis by (simp add: chunks.simps [of n xs])
  next
    case False
    with 1(2) consider "ys = take n xs" | "ys \<in> set (chunks n (drop n xs))"
      by (auto simp: chunks.simps [of n xs])
    then show ?thesis
    proof cases
      case 1
      then show ?thesis by (auto dest: in_set_takeD)
    next
      case 2
      with "1.IH" False have "set ys \<subseteq> set (drop n xs)" by blast
      then show ?thesis by (auto dest: in_set_dropD)
    qed
  qed
qed

lemma fst_eff_mapM:
  assumes "\<And>x. x \<in> set xs \<Longrightarrow> fst (f x) = Inr (g x)"
  shows "fst (eff_mapM f xs) = Inr (map g xs)"
  using assms
proof (induction xs)
  case Nil
  show ?case by (simp add: eff_ret_def)
next
  case (Cons x xs)
  have a: "fst (f x) = Inr (g x)" using Cons.prems by simp
  have b: "fst (eff_mapM f xs) = Inr (map g xs)" using Cons by simp
  show ?case
    by (simp add: fst_eff_bind [OF a] fst_eff_bind [OF b] eff_ret_def)
qed

lemma searchInBookmarks_query:
  assumes q: "query data = Some q" "q \<noteq> []"
    and present: "\<And>batch pid. batch \<in> set (chunks 500 (bookmark_set (st e) (uid_of data)))
          \<Longrightarrow> pid \<in> set (scopedPids e cids uids batch) \<Longrightarrow>
          \<exists>t. db_post (st e) pid = Some \<lparr>po_content = Some (content pid), po_tid = Some t\<rparr>
              \<and> db_topic (st e) t = Some \<lparr>to_title = Some (title pid)\<rparr>"
  shows "fst (searchInBookmarks e data cids uids) =
           Inr (map Some (concat (map
                  (\<lambda>batch. filter (\<lambda>pid. tokensMatch (matchWords data) (split_on CHR '' '' q)
                                            (content pid) (title pid))
                              (scopedPids e cids uids batch))
                  (chunks 500 (bookmark_set (st e) (uid_of data))))))"
proof -
  let ?keep = "\<lambda>pid. tokensMatch (matchWords data) (split_on CHR '' '' q) (content pid) (title pid)"
  let ?all = "bookmark_set (st e) (uid_of data)"
  let ?step = "\<lambda>batch. eff_bind (eff_call (Call_bookmarkBatch (uid_of data) batch) batch)
                          (bookmarkBatch e data cids uids)"
  have step: "fst (?step batch) = Inr (filter ?keep (scopedPids e cids uids batch))"
    if "batch \<in> set (chunks 500 ?all)" for batch
  proof -
    have "fst (bookmarkBatch e data cids uids batch)
          = Inr (filter ?keep (scopedPids e cids uids batch))"
      by (rule bookmarkBatch_query [OF q]) (rule present [OF that])
    then show ?thesis
      by (simp add: fst_eff_bind [of _ batch] eff_call_def)
  qed
  have "fst (eff_mapM ?step (chunks 500 ?all))
        = Inr (map (\<lambda>batch. filter ?keep (scopedPids e cids uids batch)) (chunks 500 ?all))"
    by (rule fst_eff_mapM) (rule step)
  then show ?thesis
    by (simp add: searchInBookmarks_def Let_def uid_of_def [symmetric] fst_eff_bind eff_ret_def)
qed

lemma searchInBookmarks_query_unscoped:
  assumes q: "query data = Some q" "q \<noteq> []"
    and present: "\<And>pid. pid \<in> set (bookmark_set (st e) (uid_of data)) \<Longrightarrow>
          \<exists>t. db_post (st e) pid = Some \<lparr>po_content = Some (content pid), po_tid = Some t\<rparr>
              \<and> db_topic (st e) t = Some \<lparr>to_title = Some (title pid)\<rparr>"
  shows "fst (searchInBookmarks e data [] []) =
           Inr (map Some (filter (\<lambda>pid. tokensMatch (matchWords data) (split_on CHR '' '' q)
                                           (content pid) (title pid))
                            (bookmark_set (st e) (uid_of data))))"
proof -
  let ?keep = "\<lambda>pid. tokensMatch (matchWords data) (split_on CHR '' '' q) (content pid) (title pid)"
  let ?all = "bookmark_set (st e) (uid_of data)"
  have pres: "\<exists>t. db_post (st e) pid = Some \<lparr>po_content = Some (content pid), po_tid = Some t\<rparr>
                \<and> db_topic (st e) t = Some \<lparr>to_title = Some (title pid)\<rparr>"
    if "batch \<in> set (chunks 500 ?all)" "pid \<in> set (scopedPids e [] [] batch)" for batch pid
    using that set_chunks [of batch 500 ?all] present by (auto simp: scopedPids_unscoped)
  have "concat (map (\<lambda>batch. filter ?keep (scopedPids e [] [] batch)) (chunks 500 ?all))
        = filter ?keep ?all"
    using concat_chunks [of 500 ?all] by (simp add: scopedPids_unscoped flip: filter_concat)
  with searchInBookmarks_query [OF q pres] show ?thesis by simp
qed

text \<open>
  C8, as the code has it. In the bookmarks path, for a request with a non-empty text
  and bookmarks whose content and topic title are present where the scope filters let
  them pass: the text is split at every single space character, so the tokens are the
  pieces between spaces, empty pieces included, and a tab or a line break separates
  nothing. The ids kept are, batch after batch and in their order, the ids that pass
  the category and author scope and whose tokens match; with \<open>matchWords = any\<close> at
  least one token is a substring of the content or of the title, otherwise (\<open>all\<close>,
  the default) every token is a substring of the content or of the title. Without
  scope they are the matching bookmarked ids in the order of the bookmark set.
\<close>

theorem bookmarks_token_match:
  assumes "query data = Some q" and "q \<noteq> []"
    and "\<And>batch pid. batch \<in> set (chunks 500 (bookmark_set (st e) (uid_of data)))
          \<Longrightarrow> pid \<in> set (scopedPids e cids uids batch) \<Longrightarrow>
          \<exists>t. db_post (st e) pid = Some \<lparr>po_content = Some (content pid), po_tid = Some t\<rparr>
              \<and> db_topic (st e) t = Some \<lparr>to_title = Some (title pid)\<rparr>"
  shows "\<exists>kept. fst (searchInBookmarks e data cids uids) = Inr (map Some kept)
     \<and> kept = concat (map
                  (\<lambda>batch. filter (\<lambda>pid. tokensMatch (matchWords data) (split_on CHR '' '' q)
                                            (content pid) (title pid))
                              (scopedPids e cids uids batch))
                  (chunks 500 (bookmark_set (st e) (uid_of data))))
     \<and> (\<forall>pid. pid \<in> set kept \<longleftrightarrow>
           (\<exists>batch \<in> set (chunks 500 (bookmark_set (st e) (uid_of data))).
               pid \<in> set (scopedPids e cids uids batch))
           \<and> (if matchWords data = Some ''any''
              then \<exists>token \<in> set (split_on CHR '' '' q).
                     (\<exists>a b. content pid = a @ token @ b) \<or> (\<exists>a b. title pid = a @ token @ b)
              else \<forall>token \<in> set (split_on CHR '' '' q).
                     (\<exists>a b. content pid = a @ token @ b) \<or> (\<exists>a b. title pid = a @ token @ b)))
     \<and> (cids = [] \<and> uids = [] \<longrightarrow>
           subseq kept (bookmark_set (st e) (uid_of data))
           \<and> (\<forall>pid. pid \<in> set kept \<longrightarrow> pid \<in> set (bookmark_set (st e) (uid_of data)))
           \<and> (\<forall>pid. pid \<in> set (bookmark_set (st e) (uid_of data)) \<longrightarrow>
                 (pid \<in> set kept \<longleftrightarrow>
                    (if matchWords data = Some ''any''
                     then \<exists>token \<in> set (split_on CHR '' '' q).
                            (\<exists>a b. content pid = a @ token @ b) \<or> (\<exists>a b. title pid = a @ token @ b)
                     else \<forall>token \<in> set (split_on CHR '' '' q).
                            (\<exists>a b. content pid = a @ token @ b)
                            \<or> (\<exists>a b. title pid = a @ token @ b)))))"
proof -
  let ?keep = "\<lambda>pid. tokensMatch (matchWords data) (split_on CHR '' '' q) (content pid) (title pid)"
  let ?all = "bookmark_set (st e) (uid_of data)"
  let ?kept = "concat (map (\<lambda>batch. filter ?keep (scopedPids e cids uids batch)) (chunks 500 ?all))"
  have run: "fst (searchInBookmarks e data cids uids) = Inr (map Some ?kept)"
    by (rule searchInBookmarks_query [OF assms])
  have mem: "pid \<in> set ?kept \<longleftrightarrow>
           (\<exists>batch \<in> set (chunks 500 ?all). pid \<in> set (scopedPids e cids uids batch))
           \<and> (if matchWords data = Some ''any''
              then \<exists>token \<in> set (split_on CHR '' '' q).
                     (\<exists>a b. content pid = a @ token @ b) \<or> (\<exists>a b. title pid = a @ token @ b)
              else \<forall>token \<in> set (split_on CHR '' '' q).
                     (\<exists>a b. content pid = a @ token @ b) \<or> (\<exists>a b. title pid = a @ token @ b))" for pid
  proof -
    have "pid \<in> set ?kept \<longleftrightarrow>
            (\<exists>batch \<in> set (chunks 500 ?all). pid \<in> set (scopedPids e cids uids batch)) \<and> ?keep pid"
      by auto
    then show ?thesis unfolding tokensMatch_iff .
  qed
  have unscoped: "?kept = filter ?keep ?all" if "cids = [] \<and> uids = []"
    using that concat_chunks [of 500 ?all] by (simp add: scopedPids_unscoped flip: filter_concat)
  have u1: "subseq ?kept ?all" if "cids = [] \<and> uids = []"
    unfolding unscoped [OF that] by simp
  have u2: "pid \<in> set ?all" if "cids = [] \<and> uids = []" "pid \<in> set ?kept" for pid
    using that(2) unfolding unscoped [OF that(1)] by simp
  have u3: "pid \<in> set ?kept \<longleftrightarrow>
                    (if matchWords data = Some ''any''
                     then \<exists>token \<in> set (split_on CHR '' '' q).
                            (\<exists>a b. content pid = a @ token @ b) \<or> (\<exists>a b. title pid = a @ token @ b)
                     else \<forall>token \<in> set (split_on CHR '' '' q).
                            (\<exists>a b. content pid = a @ token @ b)
                            \<or> (\<exists>a b. title pid = a @ token @ b))"
    if "cids = [] \<and> uids = []" "pid \<in> set ?all" for pid
  proof -
    have "pid \<in> set ?kept \<longleftrightarrow> ?keep pid"
      unfolding unscoped [OF that(1)] using that(2) by simp
    then show ?thesis unfolding tokensMatch_iff .
  qed
  show ?thesis
  proof (rule exI [of _ ?kept], intro conjI allI impI)
    show "fst (searchInBookmarks e data cids uids) = Inr (map Some ?kept)" by (rule run)
    show "?kept = ?kept" by (rule refl)
    show "pid \<in> set ?kept \<longleftrightarrow>
           (\<exists>batch \<in> set (chunks 500 ?all). pid \<in> set (scopedPids e cids uids batch))
           \<and> (if matchWords data = Some ''any''
              then \<exists>token \<in> set (split_on CHR '' '' q).
                     (\<exists>a b. content pid = a @ token @ b) \<or> (\<exists>a b. title pid = a @ token @ b)
              else \<forall>token \<in> set (split_on CHR '' '' q).
                     (\<exists>a b. content pid = a @ token @ b) \<or> (\<exists>a b. title pid = a @ token @ b))" for pid
      by (rule mem)
    show "subseq ?kept ?all" if "cids = [] \<and> uids = []" using that by (rule u1)
    show "pid \<in> set ?all" if "cids = [] \<and> uids = []" "pid \<in> set ?kept" for pid
      using that by (rule u2)
    show "pid \<in> set ?kept \<longleftrightarrow>
                    (if matchWords data = Some ''any''
                     then \<exists>token \<in> set (split_on CHR '' '' q).
                            (\<exists>a b. content pid = a @ token @ b) \<or> (\<exists>a b. title pid = a @ token @ b)
                     else \<forall>token \<in> set (split_on CHR '' '' q).
                            (\<exists>a b. content pid = a @ token @ b)
                            \<or> (\<exists>a b. title pid = a @ token @ b))"
      if "cids = [] \<and> uids = []" "pid \<in> set ?all" for pid
      using that by (rule u3)
  qed
qed

lemma demo_present:
  "pid \<in> set (bookmark_set (st demo_env) u) \<Longrightarrow>
     \<exists>t. db_post (st demo_env) pid = Some \<lparr>po_content = Some ''I have a cat'', po_tid = Some t\<rparr>
         \<and> db_topic (st demo_env) t = Some \<lparr>to_title = Some ''pets''\<rparr>"
  by (simp add: demo_env_def demo_stores_def)

lemma demo_bookmarks: "bookmark_set (st demo_env) u = [1]"
  by (simp add: demo_env_def demo_stores_def)

text \<open>
  The bookmarked post 1 with content \<open>I have a cat\<close> in the topic \<open>pets\<close>. The text
  \<open>cat dog\<close>: kept with \<open>any\<close>, dropped with \<open>all\<close> and with no mode given. The text
  \<open>dog\<close> followed by one space, with \<open>any\<close>: kept, for the empty piece after the space.
\<close>

theorem bookmarks_token_match_witness:
  "(\<exists>kept. fst (searchInBookmarks demo_env
                    (blank_request\<lparr>query := Some ''cat dog'', matchWords := Some ''any''\<rparr>) [] [])
             = Inr (map Some kept) \<and> 1 \<in> set kept)
   \<and> (\<exists>kept. fst (searchInBookmarks demo_env
                    (blank_request\<lparr>query := Some ''cat dog'', matchWords := Some ''all''\<rparr>) [] [])
             = Inr (map Some kept) \<and> 1 \<notin> set kept)
   \<and> (\<exists>kept. fst (searchInBookmarks demo_env
                    (blank_request\<lparr>query := Some ''cat dog'', matchWords := None\<rparr>) [] [])
             = Inr (map Some kept) \<and> 1 \<notin> set kept)
   \<and> (\<exists>kept. fst (searchInBookmarks demo_env
                    (blank_request\<lparr>query := Some ''dog '', matchWords := Some ''any''\<rparr>) [] [])
             = Inr (map Some kept) \<and> 1 \<in> set kept)"
proof -
  have run: "\<exists>kept. fst (searchInBookmarks demo_env
                          (blank_request\<lparr>query := Some qtext, matchWords := mw\<rparr>) [] [])
                  = Inr (map Some kept)
        \<and> (1 \<in> set kept \<longleftrightarrow>
             tokensMatch mw (split_on CHR '' '' qtext) ''I have a cat'' ''pets'')"
    if "qtext \<noteq> []" for mw qtext
  proof -
    let ?d = "blank_request\<lparr>query := Some qtext, matchWords := mw\<rparr>"
    have q: "query ?d = Some qtext" by simp
    have pres: "\<exists>t. db_post (st demo_env) pid
                      = Some \<lparr>po_content = Some ((\<lambda>_. ''I have a cat'') pid), po_tid = Some t\<rparr>
                  \<and> db_topic (st demo_env) t = Some \<lparr>to_title = Some ((\<lambda>_. ''pets'') pid)\<rparr>"
      if "batch \<in> set (chunks 500 (bookmark_set (st demo_env) (uid_of ?d)))"
         "pid \<in> set (scopedPids demo_env [] [] batch)" for batch pid
      using that set_chunks [of batch 500 "bookmark_set (st demo_env) (uid_of ?d)"]
      by (auto simp: scopedPids_unscoped intro: demo_present)
    have "\<exists>kept. fst (searchInBookmarks demo_env ?d [] []) = Inr (map Some kept)
     \<and> kept = concat (map
                  (\<lambda>batch. filter (\<lambda>pid. tokensMatch (matchWords ?d) (split_on CHR '' '' qtext)
                                            ((\<lambda>_. ''I have a cat'') pid) ((\<lambda>_. ''pets'') pid))
                              (scopedPids demo_env [] [] batch))
                  (chunks 500 (bookmark_set (st demo_env) (uid_of ?d))))
     \<and> (\<forall>pid. pid \<in> set kept \<longleftrightarrow>
           (\<exists>batch \<in> set (chunks 500 (bookmark_set (st demo_env) (uid_of ?d))).
               pid \<in> set (scopedPids demo_env [] [] batch))
           \<and> (if matchWords ?d = Some ''any''
              then \<exists>token \<in> set (split_on CHR '' '' qtext).
                     (\<exists>a b. (\<lambda>_. ''I have a cat'') pid = a @ token @ b)
                     \<or> (\<exists>a b. (\<lambda>_. ''pets'') pid = a @ token @ b)
              else \<forall>token \<in> set (split_on CHR '' '' qtext).
                     (\<exists>a b. (\<lambda>_. ''I have a cat'') pid = a @ token @ b)
                     \<or> (\<exists>a b. (\<lambda>_. ''pets'') pid = a @ token @ b)))
     \<and> ([] = ([] :: prim list) \<and> [] = ([] :: int list) \<longrightarrow>
           subseq kept (bookmark_set (st demo_env) (uid_of ?d))
           \<and> (\<forall>pid. pid \<in> set kept \<longrightarrow> pid \<in> set (bookmark_set (st demo_env) (uid_of ?d)))
           \<and> (\<forall>pid. pid \<in> set (bookmark_set (st demo_env) (uid_of ?d)) \<longrightarrow>
                 (pid \<in> set kept \<longleftrightarrow>
                    (if matchWords ?d = Some ''any''
                     then \<exists>token \<in> set (split_on CHR '' '' qtext).
                            (\<exists>a b. (\<lambda>_. ''I have a cat'') pid = a @ token @ b)
                            \<or> (\<exists>a b. (\<lambda>_. ''pets'') pid = a @ token @ b)
                     else \<forall>token \<in> set (split_on CHR '' '' qtext).
                            (\<exists>a b. (\<lambda>_. ''I have a cat'') pid = a @ token @ b)
                            \<or> (\<exists>a b. (\<lambda>_. ''pets'') pid = a @ token @ b)))))"
      by (rule bookmarks_token_match [OF q that]) (rule pres; assumption)
    then obtain kept where k: "fst (searchInBookmarks demo_env ?d [] []) = Inr (map Some kept)"
      and m: "\<forall>pid. pid \<in> set (bookmark_set (st demo_env) (uid_of ?d)) \<longrightarrow>
                 (pid \<in> set kept \<longleftrightarrow>
                    (if matchWords ?d = Some ''any''
                     then \<exists>token \<in> set (split_on CHR '' '' qtext).
                            (\<exists>a b. ''I have a cat'' = a @ token @ b) \<or> (\<exists>a b. ''pets'' = a @ token @ b)
                     else \<forall>token \<in> set (split_on CHR '' '' qtext).
                            (\<exists>a b. ''I have a cat'' = a @ token @ b)
                            \<or> (\<exists>a b. ''pets'' = a @ token @ b)))"
      by blast
    have "1 \<in> set (bookmark_set (st demo_env) (uid_of ?d))" by (simp add: demo_bookmarks)
    with m have "1 \<in> set kept \<longleftrightarrow>
                    (if matchWords ?d = Some ''any''
                     then \<exists>token \<in> set (split_on CHR '' '' qtext).
                            (\<exists>a b. ''I have a cat'' = a @ token @ b) \<or> (\<exists>a b. ''pets'' = a @ token @ b)
                     else \<forall>token \<in> set (split_on CHR '' '' qtext).
                            (\<exists>a b. ''I have a cat'' = a @ token @ b)
                            \<or> (\<exists>a b. ''pets'' = a @ token @ b))"
      by blast
    then have "1 \<in> set kept \<longleftrightarrow>
                 tokensMatch (matchWords ?d) (split_on CHR '' '' qtext) ''I have a cat'' ''pets''"
      unfolding tokensMatch_iff .
    then have "1 \<in> set kept \<longleftrightarrow> tokensMatch mw (split_on CHR '' '' qtext) ''I have a cat'' ''pets''"
      by simp
    with k show ?thesis by blast
  qed
  have t1: "tokensMatch (Some ''any'') (split_on CHR '' '' ''cat dog'') ''I have a cat'' ''pets''"
    by (simp add: tokensMatch_def)
  have t2: "\<not> tokensMatch (Some ''all'') (split_on CHR '' '' ''cat dog'') ''I have a cat'' ''pets''"
    by (simp add: tokensMatch_def)
  have t3: "\<not> tokensMatch None (split_on CHR '' '' ''cat dog'') ''I have a cat'' ''pets''"
    by (simp add: tokensMatch_def)
  have t4: "tokensMatch (Some ''any'') (split_on CHR '' '' ''dog '') ''I have a cat'' ''pets''"
    by (simp add: tokensMatch_def)
  have n1: "''cat dog'' \<noteq> []" and n2: "''dog '' \<noteq> []" by simp_all
  from run [OF n1, of "Some ''any''"] run [OF n1, of "Some ''all''"] run [OF n1, of None]
       run [OF n2, of "Some ''any''"] t1 t2 t3 t4
  show ?thesis by (simp only: simp_thms)
qed

text \<open>
  The tokens are the pieces between single spaces: two spaces in a row give an empty
  token, and the empty token is a substring of every content.
\<close>

lemma split_double_space: "split_on CHR '' '' ''cat  dog'' = [''cat'', [], ''dog'']"
  by simp

lemma empty_token_matches: "includes_str s []"
  by (cases s) simp_all

text \<open>
  Where the pieces are not the whitespace tokens. The text \<open>zzz\<close> followed by one space
  has the single whitespace token \<open>zzz\<close>, which occurs neither in the content
  \<open>I have a cat\<close> nor in the title \<open>pets\<close>, yet with \<open>any\<close> the bookmark is kept. The text
  \<open>cat\<close>, a tab, \<open>zzz\<close> has the whitespace tokens \<open>cat\<close> and \<open>zzz\<close>, of which \<open>cat\<close>
  occurs in the content, yet with \<open>any\<close> the bookmark is dropped.
\<close>

theorem bookmarks_pieces_are_not_whitespace_tokens:
  "spec_whitespace_tokens ''zzz '' = [''zzz'']
   \<and> \<not> includes_str ''I have a cat'' ''zzz'' \<and> \<not> includes_str ''pets'' ''zzz''
   \<and> fst (searchInBookmarks demo_env
             (blank_request\<lparr>query := Some ''zzz '', matchWords := Some ''any''\<rparr>) [] [])
     = Inr [Some 1]
   \<and> spec_whitespace_tokens (''cat'' @ [CHR 0x09] @ ''zzz'') = [''cat'', ''zzz'']
   \<and> includes_str ''I have a cat'' ''cat''
   \<and> fst (searchInBookmarks demo_env
             (blank_request\<lparr>query := Some (''cat'' @ [CHR 0x09] @ ''zzz''),
                              matchWords := Some ''any''\<rparr>) [] [])
     = Inr []"
proof -
  have run: "fst (searchInBookmarks demo_env
                    (blank_request\<lparr>query := Some qtext, matchWords := Some ''any''\<rparr>) [] [])
             = Inr (map Some (filter (\<lambda>pid. tokensMatch (Some ''any'') (split_on CHR '' '' qtext)
                                              ''I have a cat'' ''pets'') [1]))"
    if "qtext \<noteq> []" for qtext
  proof -
    let ?d = "blank_request\<lparr>query := Some qtext, matchWords := Some ''any''\<rparr>"
    have q: "query ?d = Some qtext" by simp
    have pres: "\<exists>t. db_post (st demo_env) pid
                      = Some \<lparr>po_content = Some ((\<lambda>_. ''I have a cat'') pid), po_tid = Some t\<rparr>
                  \<and> db_topic (st demo_env) t = Some \<lparr>to_title = Some ((\<lambda>_. ''pets'') pid)\<rparr>"
      if "pid \<in> set (bookmark_set (st demo_env) (uid_of ?d))" for pid
      using that by (simp add: demo_present)
    show ?thesis
      using searchInBookmarks_query_unscoped [OF q that pres]
      by (simp add: demo_bookmarks)
  qed
  have a: "spec_whitespace_tokens ''zzz '' = [''zzz'']"
    by (simp add: spec_whitespace_tokens_def is_space_def)
  have b: "\<not> includes_str ''I have a cat'' ''zzz''" "\<not> includes_str ''pets'' ''zzz''"
    by simp_all
  have c: "fst (searchInBookmarks demo_env
             (blank_request\<lparr>query := Some ''zzz '', matchWords := Some ''any''\<rparr>) [] [])
     = Inr [Some 1]"
    using run [of "''zzz ''"] by (simp add: tokensMatch_def)
  have d: "spec_whitespace_tokens (''cat'' @ [CHR 0x09] @ ''zzz'') = [''cat'', ''zzz'']"
    by (simp add: spec_whitespace_tokens_def is_space_def)
  have e: "includes_str ''I have a cat'' ''cat''" by simp
  have f: "fst (searchInBookmarks demo_env
             (blank_request\<lparr>query := Some (''cat'' @ [CHR 0x09] @ ''zzz''),
                              matchWords := Some ''any''\<rparr>) [] [])
     = Inr []"
    using run [of "''cat'' @ [CHR 0x09] @ ''zzz''"] by (simp add: tokensMatch_def)
  from a b c d e f show ?thesis by (intro conjI)
qed


section \<open>What the hydration keeps\<close>

text \<open>
  Past the early return the module does exclude what C3 names. Every post that
  \<open>getMatchedPosts\<close> returns was fetched for a candidate id, is not soft-deleted, and
  has a parent topic that exists and is not soft-deleted; and when at least one post
  is returned and no listener is registered, every id in the result of
  \<open>filterAndSort\<close> is the id of such a post.
\<close>

lemma sortPosts_mset: "sortPosts isNumber items data = Inr ys \<Longrightarrow> mset ys = mset items"
  by (auto simp: sortPosts_def Let_def mset_js_sort split: if_splits option.splits)

lemma getTopics_value:
  assumes "fst (getTopics e tids data) = Inr topics"
  shows "\<exists>F. (\<forall>td. t_deleted (F td) = rt_deleted td) \<and> topics = map (map_option F) (map (topic_store (st e)) tids)"
proof -
  let ?raw = "map (topic_store (st e)) tids"
  let ?cids = "uniq (map (map_option rt_cid) ?raw)"
  obtain r l where gc: "getCategories e ?cids data = (r, l)" by (cases "getCategories e ?cids data")
  show ?thesis
  proof (cases r)
    case (Inl err)
    with assms gc show ?thesis
      by (simp add: getTopics_def Let_def eff_bind_def eff_call_def)
  next
    case (Inr cats)
    let ?F = "\<lambda>topic'. \<lparr>t_cid = rt_cid topic',
                                     t_deleted = rt_deleted topic',
                                     t_postcount = rt_postcount topic',
                                     t_title = rt_title topic',
                                     t_tags = map_option (map tag_value) (rt_tags topic'),
                                     t_category = (if cats \<noteq> None
                                                   then zipObject ?cids (case cats of None \<Rightarrow> [] | Some cs \<Rightarrow> cs) (Some (rt_cid topic'))
                                                   else None)\<rparr>"
    from assms gc Inr have "topics = map (map_option ?F) ?raw"
      by (simp add: getTopics_def Let_def eff_bind_def eff_call_def eff_ret_def)
    moreover have "\<forall>td. t_deleted (?F td) = rt_deleted td" by simp
    ultimately show ?thesis by (intro exI [of _ ?F] conjI)
  qed
qed

lemma getMatchedPosts_sound:
  assumes run: "fst (getMatchedPosts e pids data) = Inr ps" and p: "p \<in> set ps"
  shows "\<exists>i pf td. Some i \<in> set pids \<and> post_store (st e) i = Some pf \<and> f_deleted pf = 0
            \<and> p_pid p = f_pid pf
            \<and> topic_store (st e) (f_tid pf) = Some td \<and> rt_deleted td = 0"
proof -
  let ?fetched = "map (\<lambda>pid. case pid of None \<Rightarrow> None | Some i \<Rightarrow> post_store (st e) i) pids"
  let ?postsData = "filter (\<lambda>post. f_deleted post = 0) (List.map_filter (\<lambda>post. post) ?fetched)"
  let ?uids = "uniq (map f_uid ?postsData)"
  let ?tids = "uniq (map f_tid ?postsData)"
  obtain r l where both: "eff_both (getUsers e ?uids data) (getTopics e ?tids data) = (r, l)"
    by (cases "eff_both (getUsers e ?uids data) (getTopics e ?tids data)")
  show ?thesis
  proof (cases r)
    case (Inl err)
    with run both show ?thesis
      by (simp add: getMatchedPosts_def Let_def eff_bind_def eff_call_def)
  next
    case (Inr ut)
    obtain users topics where ut: "ut = (users, topics)" by (cases ut)
    have gt: "fst (getTopics e ?tids data) = Inr topics"
      using both Inr ut
      by (cases "getUsers e ?uids data"; cases "fst (getUsers e ?uids data)";
          cases "getTopics e ?tids data"; cases "fst (getTopics e ?tids data)")
         (auto simp: eff_both_def)
    from getTopics_value [OF gt] obtain F where
      F: "\<And>td. t_deleted (F td) = rt_deleted td"
      and topics: "topics = map (\<lambda>t. map_option F (topic_store (st e) t)) ?tids"
      by (auto simp: o_def)
    let ?enrich = "\<lambda>post. \<lparr>p_pid = f_pid post,
                                  p_uid = f_uid post,
                                  p_tid = f_tid post,
                                  p_timestamp = f_timestamp post,
                                  p_deleted = f_deleted post,
                                  p_upvotes = f_upvotes post,
                                  p_downvotes = f_downvotes post,
                                  p_topic = zipObject ?tids topics (f_tid post),
                                  p_category = (case zipObject ?tids topics (f_tid post) of
                                                  None \<Rightarrow> None
                                                | Some t \<Rightarrow> t_category t),
                                  p_user = zipObject ?uids users (f_uid post)\<rparr>"
    have ps: "ps = filter (\<lambda>post. case p_topic post of None \<Rightarrow> False | Some t \<Rightarrow> t_deleted t = 0)
                     (map ?enrich ?postsData)"
      using run both Inr ut
      by (simp add: getMatchedPosts_def Let_def eff_bind_def eff_call_def eff_ret_def)
    from p obtain pf where pf: "pf \<in> set ?postsData" and pe: "p = ?enrich pf"
      and keep: "case p_topic p of None \<Rightarrow> False | Some t \<Rightarrow> t_deleted t = 0"
      unfolding ps by auto
    from pf have del: "f_deleted pf = 0" by simp
    from pf obtain i where i: "Some i \<in> set pids" "post_store (st e) i = Some pf"
      by (auto simp: List.map_filter_def split: option.splits)
    have "f_tid pf \<in> set ?tids" using pf by (simp add: set_uniq)
    then have "zipObject ?tids topics (f_tid pf) = map_option F (topic_store (st e) (f_tid pf))"
      unfolding topics by (rule zipObject_map)
    with keep pe obtain td where "topic_store (st e) (f_tid pf) = Some td" "rt_deleted td = 0"
      by (cases "topic_store (st e) (f_tid pf)") (auto simp: F)
    with i del pe show ?thesis by auto
  qed
qed

lemma filterAndSort_excludes:
  assumes slow: "\<not> fastPath e data"
    and nohook: "on_filterAndSort (hk e) = []"
    and hyd: "fst (getMatchedPosts e pids data) = Inr ps" and ne: "ps \<noteq> []"
    and run: "fst (filterAndSort e pids data) = Inr ids" and r: "r \<in> set ids"
  shows "\<exists>i pf td. r = Some (f_pid pf) \<and> Some i \<in> set pids
            \<and> post_store (st e) i = Some pf \<and> f_deleted pf = 0
            \<and> topic_store (st e) (f_tid pf) = Some td \<and> rt_deleted td = 0"
proof -
  obtain l where gm: "getMatchedPosts e pids data = (Inr ps, l)"
    using hyd by (cases "getMatchedPosts e pids data") auto
  obtain filtered where fl: "applyFilters (date_now (sv e)) ps data = Inr filtered"
    using run slow ne gm
    by (cases "applyFilters (date_now (sv e)) ps data")
       (auto simp: filterAndSort_def eff_bind_def eff_lift_def)
  obtain sorted where so: "sortPosts (utils_isNumber (sv e)) filtered data = Inr sorted"
    using run slow ne gm fl
    by (cases "sortPosts (utils_isNumber (sv e)) filtered data")
       (auto simp: filterAndSort_def eff_bind_def eff_lift_def)
  have ids: "ids = map (\<lambda>p. Some (p_pid p)) sorted"
    using run slow ne gm fl so nohook
    by (simp add: filterAndSort_def eff_bind_def eff_lift_def eff_call_def eff_ret_def
          fire_def o_def)
  from r obtain p where pin: "p \<in> set sorted" and rp: "r = Some (p_pid p)"
    unfolding ids by auto
  have "set sorted = set filtered"
    using sortPosts_mset [OF so] by (rule mset_eq_setD)
  moreover have "x \<in> set ps" if "x \<in> set filtered" for x
    using applyFilters_subseq [OF fl] that by (auto dest: list_emb_set)
  ultimately have "p \<in> set ps" using pin by blast
  from getMatchedPosts_sound [OF hyd this] rp show ?thesis by auto
qed

end
